theory Spec2Isabelle
  imports Complex_Main "HOL-Library.Log_Nat"
begin

section \<open>The signal-and-state engine of bot.py\<close>

text \<open>
  The development embeds the state store (\<open>load_state\<close>, \<open>save_state\<close>), the
  notification gate (\<open>should_send\<close>, \<open>mark_sent\<close>, \<open>send_telegram\<close>) and the
  position state machine (\<open>check_signals\<close>) of \<^verbatim>\<open>src/bot.py\<close>.

  Conventions of the embedding:
  \<^item> A Python float is the real number it denotes, and every arithmetic operation the
    source performs on floats is the exact operation followed by rounding to binary64
    (\<open>binary64\<close>, round to nearest, ties to even). NaN and the infinities are not
    represented: prices, EMA values and entry prices are finite.
  \<^item> A Python dict with a fixed set of possible keys is a record whose fields are
    options: \<open>None\<close> is "key absent", \<open>Some v\<close> is "key present with value v". A value
    that may be JSON \<^verbatim>\<open>null\<close> is itself an option, so \<open>Some None\<close> is "present, null".
  \<^item> \<^verbatim>\<open>time.time()\<close>, the downloaded price rows with their EMA columns, the Telegram
    credentials and the rendering of message texts are inputs of the model.
  \<^item> Every exception the source can raise on these data is a value of \<open>py_error\<close>.
  \<^item> \<open>write_log\<close> only appends a line to the log file and the console; the log is
    left out, and so is the startup message, which is sent without a snapshot.
\<close>

subsection \<open>Configuration constants\<close>

definition ASSETS :: "string list" where
  "ASSETS =
    [''BTC-USD'', ''ETH-USD'', ''SOL-USD'', ''AVAX-USD'',
     ''TUPRS.IS'', ''DOAS.IS'', ''THYAO.IS'', ''MAVI.IS'', ''ASELS.IS'', ''KONTR.IS'',
     ''ARDYZ.IS'', ''MIATK.IS'', ''MPARK.IS'', ''EKGYO.IS'', ''LOGO.IS'', ''SMRTG.IS'',
     ''GWIND.IS'', ''YEOTK.IS'', ''OYAKC.IS'', ''EREGL.IS'', ''DESA.IS'', ''BIMAS.IS'',
     ''TUKAS.IS'',
     ''GOOGL'', ''NVDA'', ''META'', ''INTC'', ''AAPL'', ''MSFT'']"

definition STOP_LOSS :: real where
  "STOP_LOSS = 10"

definition TAKE_PROFIT :: real where
  "TAKE_PROFIT = 40"

definition UPGRADED_TP :: real where
  "UPGRADED_TP = 100"

definition MIN_TELEGRAM_INTERVAL :: int where
  "MIN_TELEGRAM_INTERVAL = 60"

subsection \<open>Python floats\<close>

text \<open>
  The powers of two, the binary exponent of a non-zero real (the \<open>e\<close> with
  \<open>2 ^ e \<le> \<bar>x\<bar> < 2 ^ (e + 1)\<close>, see \<open>exponent_bounds\<close>) and rounding to the
  nearest integer with ties to even.
\<close>

definition pow2 :: "int \<Rightarrow> real" where
  "pow2 e = (if 0 \<le> e then 2 ^ nat e else 1 / 2 ^ nat (- e))"

definition exponent :: "real \<Rightarrow> int" where
  "exponent x =
     (let a = \<bar>x\<bar>
      in if 1 \<le> a then bitlen \<lfloor>a\<rfloor> - 1 else - bitlen (\<lceil>1 / a\<rceil> - 1))"

definition round_even :: "real \<Rightarrow> int" where
  "round_even x =
     (let f = \<lfloor>x\<rfloor>; d = x - of_int f
      in if d < 1 / 2 then f
         else if 1 / 2 < d then f + 1
         else if even f then f else f + 1)"

text \<open>
  Rounding to binary64: 53 significant bits, so the spacing at exponent \<open>e\<close> is
  \<open>2 ^ (e - 52)\<close>; below the smallest normal exponent \<open>-1022\<close> the spacing stays that
  of the subnormals. A result of magnitude \<open>2 ^ 1024\<close> or more stands for the infinity
  the operation overflows to: against a finite float it compares as that infinity does.
\<close>

definition binary64 :: "real \<Rightarrow> real" where
  "binary64 x =
     (if x = 0 then 0
      else (let e = max (exponent x) (- 1022); u = pow2 (e - 52)
            in of_int (round_even (x / u)) * u))"

text \<open>
  The operators \<^verbatim>\<open>/\<close>, \<^verbatim>\<open>+\<close>, \<^verbatim>\<open>-\<close> and \<^verbatim>\<open>*\<close> where the source applies them to
  numbers: an \<^verbatim>\<open>int\<close> operand is converted exactly, and \<^verbatim>\<open>int / int\<close> is correctly
  rounded as well. The divisor is the constant 100 wherever the source divides.
\<close>

definition float_div :: "real \<Rightarrow> real \<Rightarrow> real" where
  "float_div a b = binary64 (a / b)"

definition float_add :: "real \<Rightarrow> real \<Rightarrow> real" where
  "float_add a b = binary64 (a + b)"

definition float_sub :: "real \<Rightarrow> real \<Rightarrow> real" where
  "float_sub a b = binary64 (a - b)"

definition float_mul :: "real \<Rightarrow> real \<Rightarrow> real" where
  "float_mul a b = binary64 (a * b)"

subsection \<open>The snapshot\<close>

text \<open>The dict \<^verbatim>\<open>{"text": ..., "ts": ...}\<close> that \<open>mark_sent\<close> writes.\<close>

record msg =
  msg_text :: string
  msg_ts :: int

text \<open>
  The dict of one instrument. \<open>entry_price\<close> and \<open>last_msg\<close> may be present with the
  value \<^verbatim>\<open>None\<close>.
\<close>

record position =
  in_position :: "bool option"
  entry_price :: "real option option"
  take_profit :: "real option"
  last_msg :: "msg option option"

text \<open>
  The top-level dict: the instrument dicts by symbol, and the key
  \<^verbatim>\<open>"global_last_msg"\<close>, which may be absent, null or a message.
\<close>

record state =
  assets :: "string \<rightharpoonup> position"
  global_last_msg :: "msg option option"

datatype py_error = KeyError | TypeError | ZeroDivisionError

text \<open>The empty dict \<^verbatim>\<open>{}\<close> as an instrument dict.\<close>

definition empty_position :: position where
  "empty_position =
     \<lparr>in_position = None, entry_price = None, take_profit = None, last_msg = None\<rparr>"

text \<open>\<^verbatim>\<open>d.get(key)\<close> on a key whose value may be null: absent and null both give \<^verbatim>\<open>None\<close>.\<close>

definition get_or_none :: "'a option option \<Rightarrow> 'a option" where
  "get_or_none v = (case v of None \<Rightarrow> None | Some x \<Rightarrow> x)"

text \<open>\<^verbatim>\<open>state.get(symbol, {})\<close>.\<close>

definition get_symbol :: "state \<Rightarrow> string \<Rightarrow> position" where
  "get_symbol st symbol = (case assets st symbol of None \<Rightarrow> empty_position | Some p \<Rightarrow> p)"

subsection \<open>The state file\<close>

text \<open>
  A file on disk either holds a complete JSON document, which \<^verbatim>\<open>json.load\<close> reads back
  as the snapshot that \<^verbatim>\<open>json.dump\<close> wrote, or bytes that do not parse (an empty or
  truncated file, or anything else on which \<^verbatim>\<open>json.load\<close> or the merge loop raises).
\<close>

datatype content = Doc state | Torn

datatype event = Saved | Posted string

text \<open>
  The world outside the process: \<^verbatim>\<open>state.json\<close>, \<^verbatim>\<open>state.json.tmp\<close>, and the
  sequence of \<open>save_state\<close> calls and Telegram posts made so far.
\<close>

record world =
  state_file :: "content option"
  tmp_file :: "content option"
  events :: "event list"

text \<open>
  \<open>save_state\<close> in three effects: \<^verbatim>\<open>open(tmp_file, "w")\<close> creates or truncates the
  temporary file; \<^verbatim>\<open>json.dump\<close> and the end of the \<^verbatim>\<open>with\<close> block complete it;
  \<^verbatim>\<open>os.replace\<close> renames it over the state file.
\<close>

definition open_tmp :: "world \<Rightarrow> world" where
  "open_tmp w = w\<lparr>tmp_file := Some Torn\<rparr>"

definition dump_tmp :: "state \<Rightarrow> world \<Rightarrow> world" where
  "dump_tmp st w = w\<lparr>tmp_file := Some (Doc st)\<rparr>"

definition replace_tmp :: "world \<Rightarrow> world" where
  "replace_tmp w = w\<lparr>state_file := tmp_file w, tmp_file := None\<rparr>"

text \<open>
  \<open>save_state\<close> stopped after its first \<open>k\<close> effects: by an exception, which the
  \<^verbatim>\<open>except\<close> clause only logs, or by the end of the process. From \<open>k = 3\<close> on it
  has run to its end, which is how the cycle below takes every save.
\<close>

definition save_state_upto :: "nat \<Rightarrow> state \<Rightarrow> world \<Rightarrow> world" where
  "save_state_upto k st w =
     (let w0 = w\<lparr>events := events w @ [Saved]\<rparr>;
          w1 = (if 1 \<le> k then open_tmp w0 else w0);
          w2 = (if 2 \<le> k then dump_tmp st w1 else w1);
          w3 = (if 3 \<le> k then replace_tmp w2 else w2)
      in w3)"

definition save_state :: "state \<Rightarrow> world \<Rightarrow> world" where
  "save_state st w = save_state_upto 3 st w"

definition default_position :: position where
  "default_position =
     \<lparr>in_position = Some False, entry_price = Some None,
      take_profit = Some TAKE_PROFIT, last_msg = Some None\<rparr>"

text \<open>The dict comprehension at the head of \<open>load_state\<close>, over any list of symbols.\<close>

definition default_for :: "string list \<Rightarrow> state" where
  "default_for syms =
     \<lparr>assets = (\<lambda>k. if k \<in> set syms then Some default_position else None),
      global_last_msg = None\<rparr>"

definition default_state :: state where
  "default_state = default_for ASSETS"

text \<open>The inner loop \<^verbatim>\<open>for field in v: if field not in s[k]: s[k][field] = v[field]\<close>.\<close>

definition fill_fields :: "position \<Rightarrow> position" where
  "fill_fields p =
     \<lparr>in_position = (case in_position p of None \<Rightarrow> in_position default_position | Some b \<Rightarrow> Some b),
      entry_price = (case entry_price p of None \<Rightarrow> entry_price default_position | Some e \<Rightarrow> Some e),
      take_profit = (case take_profit p of None \<Rightarrow> take_profit default_position | Some t \<Rightarrow> Some t),
      last_msg = (case last_msg p of None \<Rightarrow> last_msg default_position | Some m \<Rightarrow> Some m)\<rparr>"

text \<open>One round of the outer loop \<^verbatim>\<open>for k, v in default.items()\<close>.\<close>

definition fill_symbol :: "string \<Rightarrow> state \<Rightarrow> state" where
  "fill_symbol k s =
     (case assets s k of
        None \<Rightarrow> s\<lparr>assets := (assets s)(k \<mapsto> default_position)\<rparr>
      | Some p \<Rightarrow> s\<lparr>assets := (assets s)(k \<mapsto> fill_fields p)\<rparr>)"

definition fill_global :: "state \<Rightarrow> state" where
  "fill_global s =
     (case global_last_msg s of None \<Rightarrow> s\<lparr>global_last_msg := Some None\<rparr> | Some g \<Rightarrow> s)"

definition merge_defaults :: "string list \<Rightarrow> state \<Rightarrow> state" where
  "merge_defaults syms s = fill_global (fold fill_symbol syms s)"

definition load_state :: "world \<Rightarrow> state" where
  "load_state w =
     (case state_file w of
        None \<Rightarrow> default_state
      | Some Torn \<Rightarrow> default_state
      | Some (Doc s) \<Rightarrow> merge_defaults ASSETS s)"

subsection \<open>The notification gate\<close>

definition should_send :: "state \<Rightarrow> string \<Rightarrow> string \<Rightarrow> int \<Rightarrow> bool" where
  "should_send st symbol txt now_ts =
     (let symbol_last = get_or_none (last_msg (get_symbol st symbol));
          global_last = get_or_none (global_last_msg st)
      in if (case symbol_last of
               None \<Rightarrow> False
             | Some m \<Rightarrow> msg_text m = txt \<and> now_ts - msg_ts m < MIN_TELEGRAM_INTERVAL)
         then False
         else if (case global_last of
                    None \<Rightarrow> False
                  | Some m \<Rightarrow> msg_text m = txt \<and> now_ts - msg_ts m < 10)
         then False
         else True)"

definition mark_sent :: "state \<Rightarrow> string \<Rightarrow> string \<Rightarrow> int \<Rightarrow> world \<Rightarrow> state \<times> world" where
  "mark_sent st symbol txt now_ts w =
     (let m = \<lparr>msg_text = txt, msg_ts = now_ts\<rparr>;
          st1 = (case assets st symbol of
                   None \<Rightarrow> st\<lparr>assets := (assets st)(symbol \<mapsto> empty_position)\<rparr>
                 | Some p \<Rightarrow> st);
          st2 = st1\<lparr>assets := (assets st1)(symbol \<mapsto> (get_symbol st1 symbol)\<lparr>last_msg := Some (Some m)\<rparr>)\<rparr>;
          st3 = st2\<lparr>global_last_msg := Some (Some m)\<rparr>
      in (st3, save_state st3 w))"

text \<open>
  The texts that \<open>check_signals\<close> sends. Their rendering (f-strings with float
  formats) is the parameter \<open>render\<close> of the configuration.
\<close>

datatype notice =
    SignalText string real real real real real
  | TakeProfitText string real real real
  | StopLossText string real real real real
  | UpgradeText string

text \<open>
  \<open>telegram_ok\<close>: both \<^verbatim>\<open>TELEGRAM_TOKEN\<close> and \<^verbatim>\<open>TELEGRAM_CHAT_ID\<close> are set.
\<close>

record config =
  telegram_ok :: bool
  render :: "notice \<Rightarrow> string"

text \<open>
  \<open>send_telegram(msg, state=state, symbol=symbol)\<close> as \<open>check_signals\<close> calls it, with
  the two clock readings of \<open>should_send\<close> and \<open>mark_sent\<close>. The HTTP request changes
  nothing in the snapshot; it is recorded as the event \<open>Posted\<close>.
\<close>

definition send_telegram ::
  "config \<Rightarrow> string \<Rightarrow> state \<Rightarrow> string \<Rightarrow> int \<Rightarrow> int \<Rightarrow> world \<Rightarrow> state \<times> world" where
  "send_telegram cfg txt st symbol gate_ts mark_ts w =
     (if \<not> telegram_ok cfg then (st, w)
      else if \<not> should_send st symbol txt gate_ts then (st, w)
      else (case mark_sent st symbol txt mark_ts w of
              (st', w') \<Rightarrow> (st', w'\<lparr>events := events w' @ [Posted txt]\<rparr>)))"

subsection \<open>The position state machine\<close>

text \<open>
  The last two rows of the 4h frame with the columns \<^verbatim>\<open>EMA_SHORT\<close>, \<^verbatim>\<open>EMA_LONG\<close> and
  \<^verbatim>\<open>Close\<close>, and the last two rows of the daily frame with \<^verbatim>\<open>EMA100\<close> and \<^verbatim>\<open>EMA200\<close>.
\<close>

record bars_4h =
  prev_short :: real
  prev_long :: real
  last_short :: real
  last_long :: real
  price :: real

record bars_1d =
  prev_ema100 :: real
  prev_ema200 :: real
  daily_ema100 :: real
  daily_ema200 :: real

text \<open>
  What one round of the loop reads from outside: the two downloads (\<open>None\<close> when the
  frame is empty or too short) and the clock.
\<close>

record feed =
  h4 :: "bars_4h option"
  d1 :: "bars_1d option"
  gate_ts :: int
  mark_ts :: int

text \<open>Which branch one round of the loop took; each writes its own log line.\<close>

datatype transition =
    Skipped | Failed py_error | NoChange
  | Entry | TakeProfitExit | StopLossExit | Upgrade

text \<open>\<^verbatim>\<open>state[symbol][...] = ...\<close> on a symbol that is present.\<close>

definition set_fields :: "string \<Rightarrow> (position \<Rightarrow> position) \<Rightarrow> state \<Rightarrow> state" where
  "set_fields symbol f st =
     (case assets st symbol of
        None \<Rightarrow> st
      | Some p \<Rightarrow> st\<lparr>assets := (assets st)(symbol \<mapsto> f p)\<rparr>)"

definition open_fields :: "real \<Rightarrow> position \<Rightarrow> position" where
  "open_fields pr p =
     p\<lparr>in_position := Some True, entry_price := Some (Some pr), take_profit := Some TAKE_PROFIT\<rparr>"

definition close_fields :: "position \<Rightarrow> position" where
  "close_fields p =
     p\<lparr>in_position := Some False, entry_price := Some None, take_profit := Some TAKE_PROFIT\<rparr>"

definition upgrade_fields :: "position \<Rightarrow> position" where
  "upgrade_fields p = p\<lparr>take_profit := Some UPGRADED_TP\<rparr>"

text \<open>
  \<open>format_stoploss_log\<close> divides by the entry price to compute the realised loss, so
  it raises on an entry price of zero.
\<close>

definition format_stoploss_log ::
  "config \<Rightarrow> string \<Rightarrow> real \<Rightarrow> real \<Rightarrow> real \<Rightarrow> real \<Rightarrow> py_error + string" where
  "format_stoploss_log cfg symbol pr entry e100 e200 =
     (if entry = 0 then Inl ZeroDivisionError
      else Inr (render cfg (StopLossText symbol pr entry e100 e200)))"

text \<open>
  The body of the loop of \<open>check_signals\<close> for one symbol, with its \<^verbatim>\<open>try\<close>/\<^verbatim>\<open>except\<close>:
  an exception ends the round with the snapshot as it is. Every point that can raise
  lies before the first assignment of its branch, so the snapshot is then unchanged.
\<close>

definition check_symbol ::
  "config \<Rightarrow> string \<Rightarrow> feed \<Rightarrow> state \<Rightarrow> world \<Rightarrow> transition \<times> state \<times> world" where
  "check_symbol cfg symbol fd st w =
     (case h4 fd of
        None \<Rightarrow> (Skipped, st, w)
      | Some q \<Rightarrow>
     (case d1 fd of
        None \<Rightarrow> (Skipped, st, w)
      | Some d \<Rightarrow>
     (case assets st symbol of
        None \<Rightarrow> (Failed KeyError, st, w)
      | Some p \<Rightarrow>
     (case in_position p of
        None \<Rightarrow> (Failed KeyError, st, w)
      | Some False \<Rightarrow>
          if prev_short q < prev_long q \<and> last_short q > last_long q then
            (let st1 = set_fields symbol (open_fields (price q)) st;
                 table_msg = render cfg (SignalText symbol (price q) (daily_ema100 d)
                               (daily_ema200 d) (price q) TAKE_PROFIT)
             in case send_telegram cfg table_msg st1 symbol (gate_ts fd) (mark_ts fd) w of
                  (st2, w2) \<Rightarrow> (Entry, st2, w2))
          else (NoChange, st, w)
      | Some True \<Rightarrow>
     (case entry_price p of
        None \<Rightarrow> (Failed KeyError, st, w)
      | Some None \<Rightarrow> (Failed TypeError, st, w)
      | Some (Some entry) \<Rightarrow>
          (let tp = (case take_profit p of None \<Rightarrow> TAKE_PROFIT | Some t \<Rightarrow> t) in
           if price q \<ge> float_mul entry (float_add 1 (float_div tp 100)) then
             (let txt = render cfg (TakeProfitText symbol tp (price q) entry)
              in case send_telegram cfg txt st symbol (gate_ts fd) (mark_ts fd) w of
                   (st1, w1) \<Rightarrow> (TakeProfitExit, set_fields symbol close_fields st1, w1))
           else if price q \<le> float_mul entry (float_sub 1 (float_div STOP_LOSS 100)) then
             (case format_stoploss_log cfg symbol (price q) entry (daily_ema100 d) (daily_ema200 d) of
                Inl e \<Rightarrow> (Failed e, st, w)
              | Inr table_msg \<Rightarrow>
                  (case send_telegram cfg table_msg st symbol (gate_ts fd) (mark_ts fd) w of
                     (st1, w1) \<Rightarrow> (StopLossExit, set_fields symbol close_fields st1, w1)))
           else if prev_ema100 d < prev_ema200 d \<and> daily_ema100 d > daily_ema200 d then
             (if take_profit p \<noteq> Some UPGRADED_TP then
                (let st1 = set_fields symbol upgrade_fields st;
                     txt = render cfg (UpgradeText symbol)
                 in case send_telegram cfg txt st1 symbol (gate_ts fd) (mark_ts fd) w of
                      (st2, w2) \<Rightarrow> (Upgrade, st2, w2))
              else (NoChange, st, w))
           else (NoChange, st, w)))))))"

text \<open>The loop \<^verbatim>\<open>for symbol in ASSETS\<close>: each round continues with the snapshot of the last.\<close>

fun process_assets ::
  "config \<Rightarrow> (string \<Rightarrow> feed) \<Rightarrow> string list \<Rightarrow> state \<Rightarrow> world \<Rightarrow> state \<times> world" where
  "process_assets cfg feeds [] st w = (st, w)"
| "process_assets cfg feeds (symbol # rest) st w =
     (case check_symbol cfg symbol (feeds symbol) st w of
        (tr, st', w') \<Rightarrow> process_assets cfg feeds rest st' w')"

definition check_signals :: "config \<Rightarrow> (string \<Rightarrow> feed) \<Rightarrow> world \<Rightarrow> state \<times> world" where
  "check_signals cfg feeds w =
     (case process_assets cfg feeds ASSETS (load_state w) w of
        (st, w') \<Rightarrow> (st, save_state st w'))"

subsection \<open>Notions used in the statements\<close>

text \<open>
  The main loop \<^verbatim>\<open>while True: check_signals(); time.sleep(60)\<close>, run for as many cycles
  as there are feeds: the worlds after each cycle.
\<close>

fun run_cycles :: "config \<Rightarrow> (string \<Rightarrow> feed) list \<Rightarrow> world \<Rightarrow> world list" where
  "run_cycles cfg [] w = []"
| "run_cycles cfg (feeds # rest) w =
     (case check_signals cfg feeds w of
        (st, w') \<Rightarrow> w' # run_cycles cfg rest w')"

text \<open>The dict of an instrument as the state file holds it.\<close>

definition persisted :: "world \<Rightarrow> string \<Rightarrow> position" where
  "persisted w symbol =
     (case state_file w of
        Some (Doc s) \<Rightarrow> get_symbol s symbol
      | _ \<Rightarrow> empty_position)"

text \<open>An instrument dict with all four keys.\<close>

definition complete :: "position \<Rightarrow> bool" where
  "complete p \<longleftrightarrow>
     in_position p \<noteq> None \<and> entry_price p \<noteq> None \<and> take_profit p \<noteq> None \<and> last_msg p \<noteq> None"

text \<open>
  A snapshot with a complete dict for every configured instrument and with the key
  \<^verbatim>\<open>"global_last_msg"\<close>.
\<close>

definition well_formed :: "state \<Rightarrow> bool" where
  "well_formed st \<longleftrightarrow>
     (\<forall>k \<in> set ASSETS. case assets st k of None \<Rightarrow> False | Some p \<Rightarrow> complete p)
     \<and> global_last_msg st \<noteq> None"

text \<open>What the merge loop of \<open>load_state\<close> leaves under a configured symbol.\<close>

definition filled :: "position option \<Rightarrow> position" where
  "filled v = (case v of None \<Rightarrow> default_position | Some p \<Rightarrow> fill_fields p)"

text \<open>The branches that change the position.\<close>

definition is_transition :: "transition \<Rightarrow> bool" where
  "is_transition tr \<longleftrightarrow> tr = Entry \<or> tr = TakeProfitExit \<or> tr = StopLossExit \<or> tr = Upgrade"

text \<open>The branch each round of the loop took, in the order of the symbols.\<close>

fun round_labels ::
  "config \<Rightarrow> (string \<Rightarrow> feed) \<Rightarrow> string list \<Rightarrow> state \<Rightarrow> world \<Rightarrow> transition list" where
  "round_labels cfg feeds [] st w = []"
| "round_labels cfg feeds (symbol # rest) st w =
     (case check_symbol cfg symbol (feeds symbol) st w of
        (tr, st', w') \<Rightarrow> tr # round_labels cfg feeds rest st' w')"

text \<open>
  What the rounds of a loop append to the events, one slot per round: nothing, or the
  save and the post of the one notification it sent.
\<close>

definition slot_events :: "string option list \<Rightarrow> event list" where
  "slot_events outs =
     concat (map (\<lambda>out. case out of None \<Rightarrow> [] | Some t \<Rightarrow> [Saved, Posted t]) outs)"

definition notified :: "string option list \<Rightarrow> nat" where
  "notified outs = length (filter (\<lambda>out. out \<noteq> None) outs)"

definition saves :: "world \<Rightarrow> nat" where
  "saves w = length (filter (\<lambda>e. e = Saved) (events w))"

subsection \<open>Sample inputs\<close>

definition no_files :: world where
  "no_files = \<lparr>state_file = None, tmp_file = None, events = []\<rparr>"

definition plain_render :: "notice \<Rightarrow> string" where
  "plain_render n =
     (case n of
        SignalText s pr e100 e200 entry tp \<Rightarrow> ''BUY '' @ s
      | TakeProfitText s tp pr entry \<Rightarrow> ''TP '' @ s
      | StopLossText s pr entry e100 e200 \<Rightarrow> ''SL '' @ s
      | UpgradeText s \<Rightarrow> ''UP '' @ s)"

definition plain_cfg :: config where
  "plain_cfg = \<lparr>telegram_ok = True, render = plain_render\<rparr>"

definition flat_bars :: "real \<Rightarrow> bars_4h" where
  "flat_bars pr = \<lparr>prev_short = 1, prev_long = 1, last_short = 1, last_long = 1, price = pr\<rparr>"

definition crossing_bars :: "real \<Rightarrow> bars_4h" where
  "crossing_bars pr = \<lparr>prev_short = 1, prev_long = 2, last_short = 3, last_long = 2, price = pr\<rparr>"

definition flat_days :: bars_1d where
  "flat_days = \<lparr>prev_ema100 = 1, prev_ema200 = 1, daily_ema100 = 1, daily_ema200 = 1\<rparr>"

definition falling_days :: bars_1d where
  "falling_days = \<lparr>prev_ema100 = 3, prev_ema200 = 2, daily_ema100 = 1, daily_ema200 = 2\<rparr>"

definition quiet_feed :: "real \<Rightarrow> feed" where
  "quiet_feed pr =
     \<lparr>h4 = Some (flat_bars pr), d1 = Some flat_days, gate_ts = 1000, mark_ts = 1000\<rparr>"

definition quiet_feeds :: "string \<Rightarrow> feed" where
  "quiet_feeds symbol = quiet_feed 50"

definition entry_feed :: feed where
  "entry_feed =
     \<lparr>h4 = Some (crossing_bars 100), d1 = Some flat_days, gate_ts = 1000, mark_ts = 1000\<rparr>"

definition reversal_feed :: feed where
  "reversal_feed =
     \<lparr>h4 = Some (flat_bars 150), d1 = Some falling_days, gate_ts = 1000, mark_ts = 1000\<rparr>"

definition open_at :: "real \<Rightarrow> real \<Rightarrow> position" where
  "open_at entry tp =
     \<lparr>in_position = Some True, entry_price = Some (Some entry),
      take_profit = Some tp, last_msg = Some None\<rparr>"

text \<open>The default snapshot with a position in \<^verbatim>\<open>BTC-USD\<close> and a null global record.\<close>

definition holding :: "real \<Rightarrow> real \<Rightarrow> state" where
  "holding entry tp =
     \<lparr>assets = (assets default_state)(''BTC-USD'' \<mapsto> open_at entry tp),
      global_last_msg = Some None\<rparr>"

definition entry_feeds :: "string \<Rightarrow> feed" where
  "entry_feeds symbol = (if symbol = ''BTC-USD'' then entry_feed else quiet_feed 50)"

definition reversal_feeds :: "string \<Rightarrow> feed" where
  "reversal_feeds symbol = reversal_feed"

definition held_on_disk :: world where
  "held_on_disk = \<lparr>state_file = Some (Doc (holding 100 100)), tmp_file = None, events = []\<rparr>"

section \<open>Auxiliary facts\<close>

subsection \<open>Rounding to binary64\<close>

lemma pow2_powr: "pow2 e = 2 powr (of_int e)"
  by (simp add: pow2_def powr_int)

lemma pow2_pos: "0 < pow2 e"
  by (simp add: pow2_powr)

lemma exponent_bounds:
  assumes "x \<noteq> 0"
  shows "pow2 (exponent x) \<le> \<bar>x\<bar> \<and> \<bar>x\<bar> < pow2 (exponent x + 1)"
proof (cases "1 \<le> \<bar>x\<bar>")
  case True
  define n where "n = \<lfloor>\<bar>x\<bar>\<rfloor>"
  have n: "1 \<le> n" "of_int n \<le> \<bar>x\<bar>" "\<bar>x\<bar> < of_int n + 1"
    using True by (simp_all add: n_def le_floor_iff)
  have e: "exponent x = bitlen n - 1"
    using True by (simp add: exponent_def n_def Let_def)
  have b: "2 ^ nat (bitlen n - 1) \<le> n" "n < 2 ^ nat (bitlen n)"
    using bitlen_bounds [of n] n(1) by simp_all
  have g: "1 \<le> bitlen n"
    using n(1) by (simp add: bitlen_alt_def)
  have "pow2 (bitlen n - 1) = of_int (2 ^ nat (bitlen n - 1))"
    using g by (simp add: pow2_def)
  also have "\<dots> \<le> of_int n"
    using b(1) by (simp only: of_int_le_iff)
  finally have lo: "pow2 (bitlen n - 1) \<le> \<bar>x\<bar>"
    using n(2) by linarith
  have "n + 1 \<le> 2 ^ nat (bitlen n)"
    using b(2) by simp
  then have "(of_int (n + 1) :: real) \<le> of_int (2 ^ nat (bitlen n))"
    by (simp only: of_int_le_iff)
  then have "\<bar>x\<bar> < of_int (2 ^ nat (bitlen n))"
    using n(3) by simp
  also have "of_int (2 ^ nat (bitlen n)) = pow2 (bitlen n - 1 + 1)"
    using g by (simp add: pow2_def)
  finally show ?thesis using lo e by simp
next
  case False
  define a where "a = \<bar>x\<bar>"
  have a: "0 < a" "a < 1"
    using assms False by (simp_all add: a_def)
  define m where "m = \<lceil>1 / a\<rceil> - 1"
  have y: "1 < 1 / a"
    using a by simp
  have m: "1 \<le> m" "of_int m < 1 / a" "1 / a \<le> of_int m + 1"
    using y by (simp_all add: m_def less_ceiling_iff le_of_int_ceiling ceiling_correct)
  have e: "exponent x = - bitlen m"
    using False by (simp add: exponent_def m_def a_def Let_def)
  have b: "2 ^ nat (bitlen m - 1) \<le> m" "m < 2 ^ nat (bitlen m)"
    using bitlen_bounds [of m] m(1) by simp_all
  have g: "1 \<le> bitlen m"
    using m(1) by (simp add: bitlen_alt_def)
  have p1: "pow2 (- bitlen m) = 1 / 2 ^ nat (bitlen m)"
    using g by (simp add: pow2_def)
  have p2: "pow2 (- bitlen m + 1) = 1 / 2 ^ nat (bitlen m - 1)"
    using g by (cases "bitlen m = 1") (simp_all add: pow2_def)
  have "m + 1 \<le> 2 ^ nat (bitlen m)"
    using b(2) by simp
  then have "(of_int (m + 1) :: real) \<le> of_int (2 ^ nat (bitlen m))"
    by (simp only: of_int_le_iff)
  then have "1 / a \<le> 2 ^ nat (bitlen m)"
    using m(3) by simp
  then have lo: "1 / 2 ^ nat (bitlen m) \<le> a"
    using a(1) by (simp add: field_simps)
  have "(2::real) ^ nat (bitlen m - 1) = of_int (2 ^ nat (bitlen m - 1))"
    by simp
  also have "\<dots> \<le> of_int m"
    using b(1) by (simp only: of_int_le_iff)
  also have "\<dots> < 1 / a"
    by (rule m(2))
  finally have "2 ^ nat (bitlen m - 1) < 1 / a" .
  then have hi: "a < 1 / 2 ^ nat (bitlen m - 1)"
    using a(1) by (simp add: field_simps)
  show ?thesis
    using lo hi e p1 p2 by (simp add: a_def)
qed

lemma pow2_mono: "d \<le> e \<Longrightarrow> pow2 d \<le> pow2 e"
  by (simp add: pow2_powr)

lemma exponent_unique:
  assumes "pow2 e \<le> \<bar>x\<bar>" and "\<bar>x\<bar> < pow2 (e + 1)"
  shows "exponent x = e"
proof -
  have nz: "x \<noteq> 0"
    using assms(1) pow2_pos [of e] by auto
  note b = exponent_bounds [OF nz]
  have "\<not> exponent x + 1 \<le> e"
    using pow2_mono [of "exponent x + 1" e] b assms(1) by auto
  moreover have "\<not> e + 1 \<le> exponent x"
    using pow2_mono [of "e + 1" "exponent x"] b assms(2) by auto
  ultimately show ?thesis by simp
qed

lemma binary64_at:
  assumes "pow2 e \<le> \<bar>x\<bar>" and "\<bar>x\<bar> < pow2 (e + 1)" and "- 1022 \<le> e"
  shows "binary64 x = of_int (round_even (x / pow2 (e - 52))) * pow2 (e - 52)"
proof -
  have "exponent x = e"
    using assms(1,2) by (rule exponent_unique)
  moreover have "x \<noteq> 0"
    using assms(1) pow2_pos [of e] by auto
  ultimately show ?thesis
    using assms(3) by (simp add: binary64_def Let_def max_def)
qed

lemma round_even_half_bound: "\<bar>of_int (round_even x) - x\<bar> \<le> 1 / 2"
  by (auto simp add: round_even_def Let_def)

lemma binary64_error:
  assumes "x \<noteq> 0"
  shows "\<bar>binary64 x - x\<bar> \<le> pow2 (max (exponent x) (- 1022) - 52) / 2"
proof -
  define u where "u = pow2 (max (exponent x) (- 1022) - 52)"
  have u: "0 < u"
    by (simp add: u_def pow2_pos)
  have "binary64 x - x = (of_int (round_even (x / u)) - x / u) * u"
    using assms u by (simp add: binary64_def Let_def u_def field_simps)
  then have "\<bar>binary64 x - x\<bar> = \<bar>of_int (round_even (x / u)) - x / u\<bar> * u"
    using u by (simp add: abs_mult)
  also have "\<dots> \<le> 1 / 2 * u"
    using round_even_half_bound [of "x / u"] u by (simp add: mult_right_mono)
  finally show ?thesis by (simp add: u_def)
qed

text \<open>The thresholds of the sample positions, operation by operation.\<close>

lemma div_40_100: "float_div 40 100 = 3602879701896397 / 9007199254740992"
  unfolding float_div_def
  by (subst binary64_at [where e = "- 2"]) (simp_all add: pow2_def round_even_def)

lemma add_1_04: "float_add 1 (3602879701896397 / 9007199254740992) = 3152519739159347 / 2251799813685248"
  unfolding float_add_def
  by (subst binary64_at [where e = 0]) (simp_all add: pow2_def round_even_def)

lemma mul_100_14: "float_mul 100 (3152519739159347 / 2251799813685248) = 140"
  unfolding float_mul_def
  by (subst binary64_at [where e = 7]) (simp_all add: pow2_def round_even_def)

lemma mul_3_14: "float_mul 3 (3152519739159347 / 2251799813685248) = 1182194902184755 / 281474976710656"
  unfolding float_mul_def
  by (subst binary64_at [where e = 2]) (simp_all add: pow2_def round_even_def)

lemma div_10_100: "float_div 10 100 = 3602879701896397 / 36028797018963968"
  unfolding float_div_def
  by (subst binary64_at [where e = "- 4"]) (simp_all add: pow2_def round_even_def)

lemma sub_1_01: "float_sub 1 (3602879701896397 / 36028797018963968) = 8106479329266893 / 9007199254740992"
  unfolding float_sub_def
  by (subst binary64_at [where e = "- 1"]) (simp_all add: pow2_def round_even_def)

lemma mul_100_09: "float_mul 100 (8106479329266893 / 9007199254740992) = 90"
  unfolding float_mul_def
  by (subst binary64_at [where e = 6]) (simp_all add: pow2_def round_even_def)

lemma div_100_100: "float_div 100 100 = 1"
  unfolding float_div_def
  by (subst binary64_at [where e = 0]) (simp_all add: pow2_def round_even_def)

lemma add_1_1: "float_add 1 1 = 2"
  unfolding float_add_def
  by (subst binary64_at [where e = 1]) (simp_all add: pow2_def round_even_def)

lemma mul_100_2: "float_mul 100 2 = 200"
  unfolding float_mul_def
  by (subst binary64_at [where e = 7]) (simp_all add: pow2_def round_even_def)

lemma take_profit_level_100_40: "float_mul 100 (float_add 1 (float_div 40 100)) = 140"
  by (simp add: div_40_100 add_1_04 mul_100_14)

lemma take_profit_level_3_40:
  "float_mul 3 (float_add 1 (float_div 40 100)) = 1182194902184755 / 281474976710656"
  by (simp add: div_40_100 add_1_04 mul_3_14)

lemma take_profit_level_100_100: "float_mul 100 (float_add 1 (float_div 100 100)) = 200"
  by (simp add: div_100_100 add_1_1 mul_100_2)

lemma stop_loss_factor: "float_sub 1 (float_div STOP_LOSS 100) = 8106479329266893 / 9007199254740992"
  by (simp add: STOP_LOSS_def div_10_100 sub_1_01)

lemma stop_loss_level_100: "float_mul 100 (float_sub 1 (float_div STOP_LOSS 100)) = 90"
  by (simp add: stop_loss_factor mul_100_09)

subsection \<open>Writing the state file\<close>

lemma save_state_files:
  "state_file (save_state st w) = Some (Doc st) \<and> tmp_file (save_state st w) = None
   \<and> events (save_state st w) = events w @ [Saved]"
  by (simp add: save_state_def save_state_upto_def open_tmp_def dump_tmp_def replace_tmp_def)

subsection \<open>Sending a notification\<close>

lemma mark_sent_state:
  "fst (mark_sent st symbol txt now_ts w) =
     st\<lparr>assets := (assets st)(symbol \<mapsto>
            (get_symbol st symbol)\<lparr>last_msg := Some (Some \<lparr>msg_text = txt, msg_ts = now_ts\<rparr>)\<rparr>),
        global_last_msg := Some (Some \<lparr>msg_text = txt, msg_ts = now_ts\<rparr>)\<rparr>"
  by (simp add: mark_sent_def get_symbol_def Let_def split: option.splits)

lemma send_telegram_cases:
  "send_telegram cfg txt st symbol g m w = (st, w)
   \<or> send_telegram cfg txt st symbol g m w =
       (fst (mark_sent st symbol txt m w),
        (snd (mark_sent st symbol txt m w))
          \<lparr>events := events (snd (mark_sent st symbol txt m w)) @ [Posted txt]\<rparr>)"
  by (simp add: send_telegram_def split: prod.splits)

lemma send_telegram_symbol:
  assumes "send_telegram cfg txt st symbol g m w = (st', w')"
    and "assets st symbol = Some p"
  shows "\<exists>lm. assets st' symbol = Some (p\<lparr>last_msg := lm\<rparr>)"
proof -
  consider "st' = st" | "st' = fst (mark_sent st symbol txt m w)"
    using send_telegram_cases [of cfg "txt" st symbol g m w] assms(1) by auto
  then show ?thesis
  proof cases
    case 1
    then have "assets st' symbol = Some (p\<lparr>last_msg := last_msg p\<rparr>)"
      using assms(2) by simp
    then show ?thesis by blast
  next
    case 2
    then have "assets st' symbol =
        Some (p\<lparr>last_msg := Some (Some \<lparr>msg_text = txt, msg_ts = m\<rparr>)\<rparr>)"
      using assms(2) by (simp add: mark_sent_state get_symbol_def)
    then show ?thesis by blast
  qed
qed

lemma send_telegram_others:
  assumes "send_telegram cfg txt st symbol g m w = (st', w')"
    and "other \<noteq> symbol"
  shows "assets st' other = assets st other"
proof -
  consider "st' = st" | "st' = fst (mark_sent st symbol txt m w)"
    using send_telegram_cases [of cfg "txt" st symbol g m w] assms(1) by auto
  then show ?thesis
    using assms(2) by cases (simp_all add: mark_sent_state)
qed

lemma mark_sent_events: "events (snd (mark_sent st symbol t m w)) = events w @ [Saved]"
  by (simp add: mark_sent_def Let_def save_state_files)

lemma send_telegram_events:
  assumes "send_telegram cfg t st symbol g m w = (st', w')"
  shows "events w' = events w \<or> telegram_ok cfg \<and> events w' = events w @ [Saved, Posted t]"
proof (cases "telegram_ok cfg")
  case True
  then show ?thesis
    using send_telegram_cases [of cfg t st symbol g m w] assms
    by (auto simp add: mark_sent_events)
next
  case False
  then show ?thesis
    using assms by (simp add: send_telegram_def)
qed

subsection \<open>Assignments before and after a notification\<close>

lemma others_after_set_fields:
  "other \<noteq> symbol \<Longrightarrow> assets (set_fields symbol f st) other = assets st other"
  by (simp add: set_fields_def split: option.splits)

lemma set_fields_after_send:
  assumes "send_telegram cfg txt st symbol g m w = (st1, w1)"
    and "assets st symbol = Some p"
  shows "\<exists>lm. assets (set_fields symbol f st1) symbol = Some (f (p\<lparr>last_msg := lm\<rparr>))"
proof -
  obtain lm where "assets st1 symbol = Some (p\<lparr>last_msg := lm\<rparr>)"
    using send_telegram_symbol [OF assms] by blast
  then have "assets (set_fields symbol f st1) symbol = Some (f (p\<lparr>last_msg := lm\<rparr>))"
    by (simp add: set_fields_def)
  then show ?thesis by blast
qed

lemma send_after_set_fields:
  assumes "send_telegram cfg txt (set_fields symbol f st) symbol g m w = (st2, w2)"
    and "assets st symbol = Some p"
  shows "\<exists>lm. assets st2 symbol = Some ((f p)\<lparr>last_msg := lm\<rparr>)"
proof -
  have "assets (set_fields symbol f st) symbol = Some (f p)"
    using assms(2) by (simp add: set_fields_def)
  then show ?thesis
    using send_telegram_symbol [OF assms(1)] by blast
qed

lemma send_then_set:
  assumes "assets st symbol = Some p"
  shows "\<exists>st1 w1 lm.
     (case send_telegram cfg t st symbol g m w of
        (st1, w1) \<Rightarrow> (T, set_fields symbol f st1, w1)) = (T, st1, w1)
     \<and> assets st1 symbol = Some (f (p\<lparr>last_msg := lm\<rparr>))
     \<and> (\<forall>other. other \<noteq> symbol \<longrightarrow> assets st1 other = assets st other)"
proof -
  obtain st0 w0 where s: "send_telegram cfg t st symbol g m w = (st0, w0)"
    by (cases "send_telegram cfg t st symbol g m w") blast
  obtain lm where "assets (set_fields symbol f st0) symbol = Some (f (p\<lparr>last_msg := lm\<rparr>))"
    using set_fields_after_send [OF s assms] by blast
  moreover have "\<forall>other. other \<noteq> symbol \<longrightarrow> assets (set_fields symbol f st0) other = assets st other"
    using send_telegram_others [OF s] by (simp add: others_after_set_fields)
  ultimately show ?thesis using s by auto
qed

lemma set_then_send:
  assumes "assets st symbol = Some p"
  shows "\<exists>st2 w2 lm.
     (case send_telegram cfg t (set_fields symbol f st) symbol g m w of
        (st2, w2) \<Rightarrow> (T, st2, w2)) = (T, st2, w2)
     \<and> assets st2 symbol = Some ((f p)\<lparr>last_msg := lm\<rparr>)
     \<and> (\<forall>other. other \<noteq> symbol \<longrightarrow> assets st2 other = assets st other)"
proof -
  obtain st0 w0 where s: "send_telegram cfg t (set_fields symbol f st) symbol g m w = (st0, w0)"
    by (cases "send_telegram cfg t (set_fields symbol f st) symbol g m w") blast
  obtain lm where "assets st0 symbol = Some ((f p)\<lparr>last_msg := lm\<rparr>)"
    using send_after_set_fields [OF s assms] by blast
  moreover have "\<forall>other. other \<noteq> symbol \<longrightarrow> assets st0 other = assets st other"
    using send_telegram_others [OF s] by (simp add: others_after_set_fields)
  ultimately show ?thesis using s by auto
qed

subsection \<open>One round of the loop, branch by branch\<close>

lemma check_symbol_skipped:
  "h4 fd = None \<or> d1 fd = None \<Longrightarrow> check_symbol cfg symbol fd st w = (Skipped, st, w)"
  by (auto simp add: check_symbol_def split: option.splits)

lemma check_symbol_failed:
  assumes "h4 fd = Some q" and "d1 fd = Some d"
    and "assets st symbol = None
       \<or> (\<exists>p. assets st symbol = Some p \<and> (in_position p = None
             \<or> in_position p = Some True \<and> (entry_price p = None \<or> entry_price p = Some None)))"
  shows "\<exists>e. check_symbol cfg symbol fd st w = (Failed e, st, w)"
  using assms by (auto simp add: check_symbol_def)

lemma check_symbol_flat:
  assumes "h4 fd = Some q" and "d1 fd = Some d"
    and "assets st symbol = Some p" and "in_position p = Some False"
  shows "check_symbol cfg symbol fd st w =
     (if prev_short q < prev_long q \<and> last_short q > last_long q then
        (case send_telegram cfg
                (render cfg (SignalText symbol (price q) (daily_ema100 d) (daily_ema200 d)
                   (price q) TAKE_PROFIT))
                (set_fields symbol (open_fields (price q)) st) symbol (gate_ts fd) (mark_ts fd) w of
           (st2, w2) \<Rightarrow> (Entry, st2, w2))
      else (NoChange, st, w))"
  using assms by (simp add: check_symbol_def Let_def)

lemma check_symbol_open:
  assumes "h4 fd = Some q" and "d1 fd = Some d"
    and "assets st symbol = Some p" and "in_position p = Some True"
    and "entry_price p = Some (Some entry)"
    and "tp = (case take_profit p of None \<Rightarrow> TAKE_PROFIT | Some t \<Rightarrow> t)"
  shows "check_symbol cfg symbol fd st w =
     (if price q \<ge> float_mul entry (float_add 1 (float_div tp 100)) then
        (case send_telegram cfg (render cfg (TakeProfitText symbol tp (price q) entry))
                st symbol (gate_ts fd) (mark_ts fd) w of
           (st1, w1) \<Rightarrow> (TakeProfitExit, set_fields symbol close_fields st1, w1))
      else if price q \<le> float_mul entry (float_sub 1 (float_div STOP_LOSS 100)) then
        (if entry = 0 then (Failed ZeroDivisionError, st, w)
         else (case send_telegram cfg
                  (render cfg (StopLossText symbol (price q) entry (daily_ema100 d) (daily_ema200 d)))
                  st symbol (gate_ts fd) (mark_ts fd) w of
                 (st1, w1) \<Rightarrow> (StopLossExit, set_fields symbol close_fields st1, w1)))
      else if prev_ema100 d < prev_ema200 d \<and> daily_ema100 d > daily_ema200 d
              \<and> take_profit p \<noteq> Some UPGRADED_TP then
        (case send_telegram cfg (render cfg (UpgradeText symbol))
                (set_fields symbol upgrade_fields st) symbol (gate_ts fd) (mark_ts fd) w of
           (st2, w2) \<Rightarrow> (Upgrade, st2, w2))
      else (NoChange, st, w))"
  using assms by (simp add: check_symbol_def Let_def format_stoploss_log_def)

text \<open>Every result of one round, by the branch taken.\<close>

lemma check_symbol_result:
  assumes "check_symbol cfg symbol fd st w = (tr, st', w')"
  shows "((tr = Skipped \<or> tr = NoChange \<or> (\<exists>e. tr = Failed e)) \<and> st' = st \<and> w' = w)
    \<or> (\<exists>q d p lm. h4 fd = Some q \<and> d1 fd = Some d \<and> assets st symbol = Some p \<and>
          (\<forall>other. other \<noteq> symbol \<longrightarrow> assets st' other = assets st other) \<and>
          ((tr = Entry \<and> in_position p = Some False
              \<and> prev_short q < prev_long q \<and> last_short q > last_long q
              \<and> assets st' symbol = Some ((open_fields (price q) p)\<lparr>last_msg := lm\<rparr>))
         \<or> (\<exists>entry. in_position p = Some True \<and> entry_price p = Some (Some entry) \<and>
              ((tr = TakeProfitExit \<or> tr = StopLossExit)
                 \<and> assets st' symbol = Some (close_fields (p\<lparr>last_msg := lm\<rparr>))
             \<or> tr = Upgrade \<and> take_profit p \<noteq> Some UPGRADED_TP
                 \<and> prev_ema100 d < prev_ema200 d \<and> daily_ema100 d > daily_ema200 d
                 \<and> assets st' symbol = Some ((upgrade_fields p)\<lparr>last_msg := lm\<rparr>)))))"
proof -
  consider (skip) "h4 fd = None \<or> d1 fd = None"
    | (fail) q d where "h4 fd = Some q" "d1 fd = Some d"
        "assets st symbol = None
          \<or> (\<exists>p. assets st symbol = Some p \<and> (in_position p = None
             \<or> in_position p = Some True \<and> (entry_price p = None \<or> entry_price p = Some None)))"
    | (flat) q d p where "h4 fd = Some q" "d1 fd = Some d" "assets st symbol = Some p"
        "in_position p = Some False"
    | (opn) q d p entry where "h4 fd = Some q" "d1 fd = Some d" "assets st symbol = Some p"
        "in_position p = Some True" "entry_price p = Some (Some entry)"
  proof (cases "h4 fd")
    case None then show ?thesis using skip by simp
  next
    case q: (Some q)
    show ?thesis
    proof (cases "d1 fd")
      case None then show ?thesis using skip by simp
    next
      case d: (Some d)
      show ?thesis
      proof (cases "assets st symbol")
        case None then show ?thesis using fail q d by simp
      next
        case p: (Some p)
        show ?thesis
        proof (cases "in_position p")
          case None then show ?thesis using fail q d p by simp
        next
          case (Some b)
          show ?thesis
          proof (cases b)
            case False then show ?thesis using flat q d p Some by simp
          next
            case True
            then show ?thesis
              using fail [OF q d] opn [OF q d p] p Some
              by (cases "entry_price p") auto
          qed
        qed
      qed
    qed
  qed
  then show ?thesis
  proof cases
    case skip
    then show ?thesis using assms check_symbol_skipped [OF skip, of cfg symbol st w] by simp
  next
    case fail
    then show ?thesis using assms check_symbol_failed [OF fail, of cfg w] by auto
  next
    case flat
    show ?thesis
    proof (cases "prev_short q < prev_long q \<and> last_short q > last_long q")
      case True
      obtain st2 w2 lm where "check_symbol cfg symbol fd st w = (Entry, st2, w2)"
        and "assets st2 symbol = Some ((open_fields (price q) p)\<lparr>last_msg := lm\<rparr>)"
        and "\<forall>other. other \<noteq> symbol \<longrightarrow> assets st2 other = assets st other"
        using set_then_send [OF flat(3), where cfg = cfg and w = w and T = Entry
            and f = "open_fields (price q)" and g = "gate_ts fd" and m = "mark_ts fd"
            and t = "render cfg (SignalText symbol (price q) (daily_ema100 d) (daily_ema200 d)
                   (price q) TAKE_PROFIT)"]
          check_symbol_flat [OF flat, of cfg w] True
        by auto
      then show ?thesis using assms flat True by auto
    next
      case False
      then have "check_symbol cfg symbol fd st w = (NoChange, st, w)"
        using check_symbol_flat [OF flat, of cfg w] by auto
      then show ?thesis using assms by simp
    qed
  next
    case opn
    define tp where "tp = (case take_profit p of None \<Rightarrow> TAKE_PROFIT | Some t \<Rightarrow> t)"
    note eq = check_symbol_open [OF opn tp_def, of cfg w]
    consider (tp) "price q \<ge> float_mul entry (float_add 1 (float_div tp 100))"
      | (zero) "\<not> price q \<ge> float_mul entry (float_add 1 (float_div tp 100))" "price q \<le> float_mul entry (float_sub 1 (float_div STOP_LOSS 100))"
          "entry = 0"
      | (sl) "\<not> price q \<ge> float_mul entry (float_add 1 (float_div tp 100))" "price q \<le> float_mul entry (float_sub 1 (float_div STOP_LOSS 100))"
          "entry \<noteq> 0"
      | (up) "\<not> price q \<ge> float_mul entry (float_add 1 (float_div tp 100))" "\<not> price q \<le> float_mul entry (float_sub 1 (float_div STOP_LOSS 100))"
          "prev_ema100 d < prev_ema200 d \<and> daily_ema100 d > daily_ema200 d
            \<and> take_profit p \<noteq> Some UPGRADED_TP"
      | (no) "\<not> price q \<ge> float_mul entry (float_add 1 (float_div tp 100))" "\<not> price q \<le> float_mul entry (float_sub 1 (float_div STOP_LOSS 100))"
          "\<not> (prev_ema100 d < prev_ema200 d \<and> daily_ema100 d > daily_ema200 d
            \<and> take_profit p \<noteq> Some UPGRADED_TP)"
      by blast
    then show ?thesis
    proof cases
      case tp
      obtain st1 w1 lm where "check_symbol cfg symbol fd st w = (TakeProfitExit, st1, w1)"
        and "assets st1 symbol = Some (close_fields (p\<lparr>last_msg := lm\<rparr>))"
        and "\<forall>other. other \<noteq> symbol \<longrightarrow> assets st1 other = assets st other"
        using send_then_set [OF opn(3), where cfg = cfg and w = w and T = TakeProfitExit
            and f = close_fields and g = "gate_ts fd" and m = "mark_ts fd"
            and t = "render cfg (TakeProfitText symbol tp (price q) entry)"] eq tp
        by auto
      then show ?thesis using assms opn by auto
    next
      case zero
      then have "check_symbol cfg symbol fd st w = (Failed ZeroDivisionError, st, w)"
        using eq by simp
      then show ?thesis using assms by simp
    next
      case sl
      obtain st1 w1 lm where "check_symbol cfg symbol fd st w = (StopLossExit, st1, w1)"
        and "assets st1 symbol = Some (close_fields (p\<lparr>last_msg := lm\<rparr>))"
        and "\<forall>other. other \<noteq> symbol \<longrightarrow> assets st1 other = assets st other"
        using send_then_set [OF opn(3), where cfg = cfg and w = w and T = StopLossExit
            and f = close_fields and g = "gate_ts fd" and m = "mark_ts fd"
            and t = "render cfg (StopLossText symbol (price q) entry (daily_ema100 d) (daily_ema200 d))"]
          eq sl
        by auto
      then show ?thesis using assms opn by auto
    next
      case up
      obtain st2 w2 lm where "check_symbol cfg symbol fd st w = (Upgrade, st2, w2)"
        and "assets st2 symbol = Some ((upgrade_fields p)\<lparr>last_msg := lm\<rparr>)"
        and "\<forall>other. other \<noteq> symbol \<longrightarrow> assets st2 other = assets st other"
        using set_then_send [OF opn(3), where cfg = cfg and w = w and T = Upgrade
            and f = upgrade_fields and g = "gate_ts fd" and m = "mark_ts fd"
            and t = "render cfg (UpgradeText symbol)"] eq up
        by auto
      then show ?thesis using assms opn up by auto
    next
      case no
      then have "check_symbol cfg symbol fd st w = (NoChange, st, w)"
        using eq by auto
      then show ?thesis using assms by simp
    qed
  qed
qed

lemma check_symbol_events:
  assumes "check_symbol cfg symbol fd st w = (tr, st', w')"
  shows "events w' = events w
     \<or> telegram_ok cfg \<and> (\<exists>t. events w' = events w @ [Saved, Posted t])"
  using assms
  by (auto simp add: check_symbol_def Let_def format_stoploss_log_def
      split: option.splits bool.splits if_splits prod.splits
      dest: send_telegram_events)

subsection \<open>The whole loop\<close>

lemma check_symbol_round_events:
  assumes "check_symbol cfg symbol fd st w = (tr, st', w')"
  shows "events w' = events w
     \<or> is_transition tr \<and> telegram_ok cfg \<and> (\<exists>t. events w' = events w @ [Saved, Posted t])"
proof (cases "is_transition tr")
  case True
  then show ?thesis
    using check_symbol_events [OF assms] by blast
next
  case False
  then have "w' = w"
    using check_symbol_result [OF assms] by (auto simp add: is_transition_def)
  then show ?thesis by simp
qed

lemma slot_events_Cons:
  "slot_events (None # outs) = slot_events outs"
  "slot_events (Some t # outs) = Saved # Posted t # slot_events outs"
  by (simp_all add: slot_events_def)

lemma process_assets_slots:
  assumes "process_assets cfg feeds syms st w = (st', w')"
  shows "\<exists>outs. list_all2 (\<lambda>tr out. out = None \<or> is_transition tr)
             (round_labels cfg feeds syms st w) outs
     \<and> length outs = length syms
     \<and> events w' = events w @ slot_events outs
     \<and> (\<not> telegram_ok cfg \<longrightarrow> notified outs = 0)"
  using assms
proof (induction syms arbitrary: st w)
  case Nil
  then have "list_all2 (\<lambda>tr out. out = None \<or> is_transition tr)
             (round_labels cfg feeds [] st w) []
     \<and> length ([] :: string option list) = length ([] :: string list)
     \<and> events w' = events w @ slot_events []
     \<and> (\<not> telegram_ok cfg \<longrightarrow> notified [] = 0)"
    by (simp add: slot_events_def notified_def)
  then show ?case by blast
next
  case (Cons symbol rest)
  obtain tr st1 w1 where r: "check_symbol cfg symbol (feeds symbol) st w = (tr, st1, w1)"
    by (cases "check_symbol cfg symbol (feeds symbol) st w") auto
  then have "process_assets cfg feeds rest st1 w1 = (st', w')"
    using Cons.prems by simp
  then obtain outs where s:
    "list_all2 (\<lambda>tr out. out = None \<or> is_transition tr) (round_labels cfg feeds rest st1 w1) outs"
    "length outs = length rest"
    "events w' = events w1 @ slot_events outs"
    "\<not> telegram_ok cfg \<longrightarrow> notified outs = 0"
    using Cons.IH by blast
  have l: "round_labels cfg feeds (symbol # rest) st w = tr # round_labels cfg feeds rest st1 w1"
    using r by simp
  from check_symbol_round_events [OF r] show ?case
  proof
    assume "events w1 = events w"
    then have "list_all2 (\<lambda>tr out. out = None \<or> is_transition tr)
             (round_labels cfg feeds (symbol # rest) st w) (None # outs)
       \<and> length (None # outs) = length (symbol # rest)
       \<and> events w' = events w @ slot_events (None # outs)
       \<and> (\<not> telegram_ok cfg \<longrightarrow> notified (None # outs) = 0)"
      unfolding l using s by (simp add: slot_events_Cons notified_def)
    then show ?thesis by blast
  next
    assume "is_transition tr \<and> telegram_ok cfg \<and> (\<exists>t. events w1 = events w @ [Saved, Posted t])"
    then obtain t where t: "is_transition tr" "telegram_ok cfg"
      "events w1 = events w @ [Saved, Posted t]"
      by blast
    then have "list_all2 (\<lambda>tr out. out = None \<or> is_transition tr)
             (round_labels cfg feeds (symbol # rest) st w) (Some t # outs)
       \<and> length (Some t # outs) = length (symbol # rest)
       \<and> events w' = events w @ slot_events (Some t # outs)
       \<and> (\<not> telegram_ok cfg \<longrightarrow> notified (Some t # outs) = 0)"
      unfolding l using s by (simp add: slot_events_Cons)
    then show ?thesis by blast
  qed
qed

lemma saves_slot_events: "length (filter (\<lambda>e. e = Saved) (slot_events outs)) = notified outs"
proof (induction outs)
  case Nil
  then show ?case by (simp add: slot_events_def notified_def)
next
  case (Cons out outs)
  then show ?case
    by (cases out) (simp_all add: slot_events_Cons notified_def)
qed

lemma process_assets_unchanged:
  assumes "\<forall>symbol \<in> set syms. \<exists>tr. check_symbol cfg symbol (feeds symbol) st w = (tr, st, w)"
  shows "process_assets cfg feeds syms st w = (st, w)"
  using assms by (induction syms) auto

lemma quiet_round:
  "symbol \<in> set ASSETS \<Longrightarrow>
     check_symbol cfg symbol (quiet_feeds symbol) default_state w = (NoChange, default_state, w)"
  using check_symbol_flat [of "quiet_feeds symbol" "flat_bars 50" flat_days default_state
      symbol default_position cfg w]
  by (simp add: quiet_feeds_def quiet_feed_def flat_bars_def flat_days_def default_state_def
      default_for_def default_position_def)

subsection \<open>Merging the defaults\<close>

lemma fill_fields_complete: "complete (fill_fields p)"
  by (auto simp add: complete_def fill_fields_def default_position_def split: option.splits)

lemma fill_fields_id: "complete p \<Longrightarrow> fill_fields p = p"
  by (cases p) (auto simp add: complete_def fill_fields_def)

lemma fill_fields_keeps:
  "(in_position p \<noteq> None \<longrightarrow> in_position (fill_fields p) = in_position p)
   \<and> (entry_price p \<noteq> None \<longrightarrow> entry_price (fill_fields p) = entry_price p)
   \<and> (take_profit p \<noteq> None \<longrightarrow> take_profit (fill_fields p) = take_profit p)
   \<and> (last_msg p \<noteq> None \<longrightarrow> last_msg (fill_fields p) = last_msg p)"
  by (auto simp add: fill_fields_def)

lemma fill_fields_defaults:
  "(in_position p = None \<longrightarrow> in_position (fill_fields p) = Some False)
   \<and> (entry_price p = None \<longrightarrow> entry_price (fill_fields p) = Some None)
   \<and> (take_profit p = None \<longrightarrow> take_profit (fill_fields p) = Some TAKE_PROFIT)
   \<and> (last_msg p = None \<longrightarrow> last_msg (fill_fields p) = Some None)"
  by (auto simp add: fill_fields_def default_position_def)

lemma fill_fields_twice: "fill_fields (fill_fields p) = fill_fields p"
  by (simp add: fill_fields_id fill_fields_complete)

lemma fill_fields_default: "fill_fields default_position = default_position"
  by (simp add: fill_fields_id complete_def default_position_def)

lemma filled_filled: "filled (Some (filled v)) = filled v"
  by (simp add: filled_def fill_fields_twice fill_fields_default split: option.splits)

lemma fill_symbol_assets:
  "assets (fill_symbol k s) = (assets s)(k \<mapsto> filled (assets s k))"
  by (simp add: fill_symbol_def filled_def split: option.splits)

lemma fill_symbol_global: "global_last_msg (fill_symbol k s) = global_last_msg s"
  by (simp add: fill_symbol_def split: option.splits)

lemma fold_fill_global: "global_last_msg (fold fill_symbol syms s) = global_last_msg s"
  by (induction syms arbitrary: s) (simp_all add: fill_symbol_global)

lemma fold_fill_assets:
  "assets (fold fill_symbol syms s) k =
     (if k \<in> set syms then Some (filled (assets s k)) else assets s k)"
proof (induction syms arbitrary: s)
  case Nil
  then show ?case by simp
next
  case (Cons a syms)
  show ?case
    by (simp add: Cons.IH fill_symbol_assets filled_filled)
qed

lemma merge_defaults_assets:
  "assets (merge_defaults syms s) k =
     (if k \<in> set syms then Some (filled (assets s k)) else assets s k)"
  by (simp add: merge_defaults_def fill_global_def fold_fill_assets split: option.splits)

lemma merge_defaults_global:
  "global_last_msg (merge_defaults syms s) =
     (case global_last_msg s of None \<Rightarrow> Some None | Some g \<Rightarrow> Some g)"
  by (simp add: merge_defaults_def fill_global_def fold_fill_global split: option.splits)

lemma state_eqI:
  fixes s t :: state
  assumes "assets s = assets t" and "global_last_msg s = global_last_msg t"
  shows "s = t"
  using assms by (cases s, cases t) simp

lemma merge_defaults_id:
  assumes "\<forall>k \<in> set syms. case assets s k of None \<Rightarrow> False | Some p \<Rightarrow> complete p"
    and "global_last_msg s \<noteq> None"
  shows "merge_defaults syms s = s"
proof (rule state_eqI)
  show "assets (merge_defaults syms s) = assets s"
  proof
    fix k
    show "assets (merge_defaults syms s) k = assets s k"
      using assms(1)
      by (auto simp add: merge_defaults_assets filled_def fill_fields_id split: option.splits)
  qed
  show "global_last_msg (merge_defaults syms s) = global_last_msg s"
    using assms(2) by (auto simp add: merge_defaults_global split: option.splits)
qed

lemma load_state_merges:
  assumes "state_file w = Some (Doc s)"
  shows "(\<forall>k \<in> set ASSETS. \<exists>p. assets (load_state w) k = Some p \<and> complete p
            \<and> (assets s k = None \<longrightarrow> p = default_position)
            \<and> (\<forall>p0. assets s k = Some p0 \<longrightarrow> p = fill_fields p0))
     \<and> (\<forall>k. k \<notin> set ASSETS \<longrightarrow> assets (load_state w) k = assets s k)
     \<and> global_last_msg (load_state w) = Some (get_or_none (global_last_msg s))"
  using assms
proof -
  have c: "complete default_position"
    by (simp add: complete_def default_position_def)
  show ?thesis
    using assms c
    by (auto simp add: load_state_def merge_defaults_assets merge_defaults_global filled_def
        fill_fields_complete get_or_none_def split: option.splits)
qed

lemma load_state_fallback:
  "state_file w = None \<or> state_file w = Some Torn \<Longrightarrow> load_state w = default_state"
  by (auto simp add: load_state_def)

subsection \<open>The upgraded target through rounds and cycles\<close>

lemma check_symbol_others:
  assumes "check_symbol cfg symbol fd st w = (tr, st', w')" and "other \<noteq> symbol"
  shows "assets st' other = assets st other"
  using check_symbol_result [OF assms(1)] assms(2) by auto

lemma process_assets_others:
  assumes "process_assets cfg feeds syms st w = (st', w')" and "other \<notin> set syms"
  shows "assets st' other = assets st other"
  using assms
proof (induction syms arbitrary: st w)
  case Nil
  then show ?case by simp
next
  case (Cons symbol rest)
  obtain tr st1 w1 where r: "check_symbol cfg symbol (feeds symbol) st w = (tr, st1, w1)"
    by (cases "check_symbol cfg symbol (feeds symbol) st w") auto
  then have "process_assets cfg feeds rest st1 w1 = (st', w')"
    using Cons.prems(1) by simp
  then have "assets st' other = assets st1 other"
    using Cons.IH Cons.prems(2) by simp
  moreover have "assets st1 other = assets st other"
    using check_symbol_others [OF r] Cons.prems(2) by simp
  ultimately show ?case by simp
qed

lemma upgraded_round:
  assumes "check_symbol cfg symbol fd st w = (tr, st', w')"
    and "in_position (get_symbol st symbol) = Some True"
    and "take_profit (get_symbol st symbol) = Some UPGRADED_TP"
    and "in_position (get_symbol st' symbol) = Some True"
  shows "take_profit (get_symbol st' symbol) = Some UPGRADED_TP"
  using check_symbol_result [OF assms(1)] assms(2-4)
  by (auto simp add: get_symbol_def open_fields_def close_fields_def upgrade_fields_def)

text \<open>In a loop over distinct symbols the dict of a symbol changes in its own round only.\<close>

lemma upgraded_loop:
  assumes "process_assets cfg feeds syms st w = (st', w')"
    and "distinct syms"
    and "in_position (get_symbol st symbol) = Some True"
    and "take_profit (get_symbol st symbol) = Some UPGRADED_TP"
    and "in_position (get_symbol st' symbol) = Some True"
  shows "take_profit (get_symbol st' symbol) = Some UPGRADED_TP"
  using assms
proof (induction syms arbitrary: st w)
  case Nil
  then show ?case by simp
next
  case (Cons s rest)
  obtain tr st1 w1 where r: "check_symbol cfg s (feeds s) st w = (tr, st1, w1)"
    by (cases "check_symbol cfg s (feeds s) st w") auto
  then have p: "process_assets cfg feeds rest st1 w1 = (st', w')"
    using Cons.prems(1) by simp
  show ?case
  proof (cases "s = symbol")
    case True
    then have "symbol \<notin> set rest"
      using Cons.prems(2) by simp
    then have same: "get_symbol st' symbol = get_symbol st1 symbol"
      using process_assets_others [OF p] by (simp add: get_symbol_def)
    then have "in_position (get_symbol st1 symbol) = Some True"
      using Cons.prems(5) by simp
    then have "take_profit (get_symbol st1 symbol) = Some UPGRADED_TP"
      using upgraded_round r True Cons.prems(3) Cons.prems(4) by blast
    then show ?thesis using same by simp
  next
    case False
    then have "get_symbol st1 symbol = get_symbol st symbol"
      using check_symbol_others [OF r] by (simp add: get_symbol_def)
    then show ?thesis
      using Cons.IH [OF p] Cons.prems by simp
  qed
qed

lemma distinct_ASSETS: "distinct ASSETS"
  by (simp add: ASSETS_def)

lemma load_state_keeps:
  assumes "state_file w = Some (Doc s)"
    and "in_position (get_symbol s symbol) = Some True"
    and "take_profit (get_symbol s symbol) = Some t"
  shows "in_position (get_symbol (load_state w) symbol) = Some True
     \<and> take_profit (get_symbol (load_state w) symbol) = Some t"
proof -
  obtain p where p: "assets s symbol = Some p" "in_position p = Some True"
    using assms(2) by (cases "assets s symbol") (simp_all add: get_symbol_def empty_position_def)
  then have t: "take_profit p = Some t"
    using assms(3) by (simp add: get_symbol_def)
  have "get_symbol (load_state w) symbol = (if symbol \<in> set ASSETS then fill_fields p else p)"
    using assms(1) p(1)
    by (simp add: load_state_def get_symbol_def merge_defaults_assets filled_def)
  then show ?thesis
    using p t by (simp add: fill_fields_def)
qed

lemma upgraded_cycle:
  assumes "in_position (persisted w symbol) = Some True"
    and "take_profit (persisted w symbol) = Some UPGRADED_TP"
    and "in_position (persisted (snd (check_signals cfg feeds w)) symbol) = Some True"
  shows "take_profit (persisted (snd (check_signals cfg feeds w)) symbol) = Some UPGRADED_TP"
proof -
  obtain s where s: "state_file w = Some (Doc s)"
    using assms(1)
    by (auto simp add: persisted_def empty_position_def split: option.splits content.splits)
  then have ps: "persisted w symbol = get_symbol s symbol"
    by (simp add: persisted_def)
  obtain st' w' where p: "process_assets cfg feeds ASSETS (load_state w) w = (st', w')"
    by (cases "process_assets cfg feeds ASSETS (load_state w) w") auto
  then have c: "persisted (snd (check_signals cfg feeds w)) symbol = get_symbol st' symbol"
    by (simp add: check_signals_def persisted_def save_state_files)
  have k: "in_position (get_symbol (load_state w) symbol) = Some True"
    "take_profit (get_symbol (load_state w) symbol) = Some UPGRADED_TP"
    using load_state_keeps [OF s, of symbol UPGRADED_TP] assms(1,2) ps by simp_all
  show ?thesis
    using upgraded_loop [OF p distinct_ASSETS k] assms(3) c by simp
qed

lemma upgraded_run:
  assumes "in_position (persisted w symbol) = Some True"
    and "take_profit (persisted w symbol) = Some UPGRADED_TP"
    and "\<forall>w' \<in> set (run_cycles cfg fs w). in_position (persisted w' symbol) = Some True"
  shows "\<forall>w' \<in> set (run_cycles cfg fs w). take_profit (persisted w' symbol) = Some UPGRADED_TP"
  using assms
proof (induction fs arbitrary: w)
  case Nil
  then show ?case by simp
next
  case (Cons feeds rest)
  define w1 where "w1 = snd (check_signals cfg feeds w)"
  have rs: "run_cycles cfg (feeds # rest) w = w1 # run_cycles cfg rest w1"
    by (simp add: w1_def split_beta)
  have all_open: "\<forall>w' \<in> set (w1 # run_cycles cfg rest w1).
      in_position (persisted w' symbol) = Some True"
    using Cons.prems(3) unfolding rs .
  then have o: "in_position (persisted w1 symbol) = Some True"
    by simp
  have u: "take_profit (persisted w1 symbol) = Some UPGRADED_TP"
    using upgraded_cycle [OF Cons.prems(1) Cons.prems(2)] o unfolding w1_def by simp
  have "\<forall>w' \<in> set (run_cycles cfg rest w1). take_profit (persisted w' symbol) = Some UPGRADED_TP"
    using Cons.IH [OF o u] all_open by auto
  then show ?case unfolding rs using u by simp
qed

subsection \<open>The sample inputs\<close>

lemma holding_btc: "assets (holding entry tp) ''BTC-USD'' = Some (open_at entry tp)"
  by (simp add: holding_def)

lemma default_btc: "assets default_state ''BTC-USD'' = Some default_position"
  by (simp add: default_state_def default_for_def ASSETS_def)

lemma well_formed_holding: "well_formed (holding entry tp)"
  by (simp add: well_formed_def holding_def open_at_def complete_def default_state_def
      default_for_def default_position_def)

lemma sample_take_profit:
  "fst (check_symbol plain_cfg ''BTC-USD'' (quiet_feed 140) (holding 100 40) no_files)
     = TakeProfitExit"
  using check_symbol_open [of "quiet_feed 140" "flat_bars 140" flat_days "holding 100 40"
      "''BTC-USD''" "open_at 100 40" 100 40 plain_cfg no_files]
  by (simp add: quiet_feed_def holding_def open_at_def flat_bars_def split_beta
      take_profit_level_100_40)

lemma calm_round:
  assumes "symbol \<in> set ASSETS"
  shows "check_symbol plain_cfg symbol (reversal_feeds symbol) (holding 100 100) w
     = (NoChange, holding 100 100, w)"
proof (cases "symbol = ''BTC-USD''")
  case True
  then show ?thesis
    using check_symbol_open [of reversal_feed "flat_bars 150" falling_days "holding 100 100"
      "''BTC-USD''" "open_at 100 100" 100 100 plain_cfg w]
    by (simp add: reversal_feeds_def reversal_feed_def holding_def open_at_def flat_bars_def
        falling_days_def take_profit_level_100_100 stop_loss_level_100)
next
  case False
  then show ?thesis
    using assms check_symbol_flat [of reversal_feed "flat_bars 150" falling_days "holding 100 100"
      symbol default_position plain_cfg w]
    by (simp add: reversal_feeds_def reversal_feed_def holding_def flat_bars_def
        default_state_def default_for_def default_position_def)
qed

lemma calm_cycle:
  assumes "state_file w = Some (Doc (holding 100 100))"
  shows "check_signals plain_cfg reversal_feeds w
     = (holding 100 100, save_state (holding 100 100) w)"
proof -
  have "load_state w = holding 100 100"
    using assms well_formed_holding [of 100 100]
    by (simp add: load_state_def well_formed_def merge_defaults_id)
  moreover have "process_assets plain_cfg reversal_feeds ASSETS (holding 100 100) w
      = (holding 100 100, w)"
    by (rule process_assets_unchanged) (simp add: calm_round)
  ultimately show ?thesis
    by (simp add: check_signals_def)
qed

text \<open>A cycle in which the first instrument is entered and the others are quiet.\<close>

lemma quiet_round_at:
  assumes "assets st symbol = Some default_position"
  shows "check_symbol cfg symbol (quiet_feed 50) st w = (NoChange, st, w)"
  using check_symbol_flat [of "quiet_feed 50" "flat_bars 50" flat_days st symbol
      default_position cfg w] assms
  by (simp add: quiet_feed_def flat_bars_def default_position_def)

lemma entry_round:
  "fst (check_symbol plain_cfg ''BTC-USD'' entry_feed default_state no_files) = Entry
   \<and> events (snd (snd (check_symbol plain_cfg ''BTC-USD'' entry_feed default_state no_files)))
       = [Saved, Posted ''BUY BTC-USD'']"
proof -
  define st1 where "st1 = set_fields ''BTC-USD'' (open_fields 100) default_state"
  have "get_symbol st1 ''BTC-USD'' = open_fields 100 default_position"
    by (simp add: st1_def set_fields_def default_btc get_symbol_def)
  then have l: "get_or_none (last_msg (get_symbol st1 ''BTC-USD'')) = None"
    by (simp add: open_fields_def default_position_def get_or_none_def)
  have g: "get_or_none (global_last_msg st1) = None"
    by (simp add: st1_def set_fields_def default_btc default_state_def default_for_def
        get_or_none_def)
  have s: "should_send st1 ''BTC-USD'' ''BUY BTC-USD'' 1000"
    by (simp add: should_send_def l g)
  have t: "send_telegram plain_cfg ''BUY BTC-USD'' st1 ''BTC-USD'' 1000 1000 no_files
      = (fst (mark_sent st1 ''BTC-USD'' ''BUY BTC-USD'' 1000 no_files),
         (snd (mark_sent st1 ''BTC-USD'' ''BUY BTC-USD'' 1000 no_files))
           \<lparr>events := events (snd (mark_sent st1 ''BTC-USD'' ''BUY BTC-USD'' 1000 no_files))
              @ [Posted ''BUY BTC-USD'']\<rparr>)"
    using s by (simp add: send_telegram_def plain_cfg_def split_beta)
  have "check_symbol plain_cfg ''BTC-USD'' entry_feed default_state no_files
      = (Entry, fst (mark_sent st1 ''BTC-USD'' ''BUY BTC-USD'' 1000 no_files),
         (snd (mark_sent st1 ''BTC-USD'' ''BUY BTC-USD'' 1000 no_files))
           \<lparr>events := events (snd (mark_sent st1 ''BTC-USD'' ''BUY BTC-USD'' 1000 no_files))
              @ [Posted ''BUY BTC-USD'']\<rparr>)"
    using check_symbol_flat [of entry_feed "crossing_bars 100" flat_days default_state
        "''BTC-USD''" default_position plain_cfg no_files] t
    by (simp add: entry_feed_def default_btc default_position_def crossing_bars_def
        plain_cfg_def plain_render_def st1_def)
  then show ?thesis
    by (simp add: mark_sent_events no_files_def)
qed

lemma entry_cycle:
  "events (snd (check_signals plain_cfg entry_feeds no_files))
     = [Saved, Posted ''BUY BTC-USD'', Saved]"
proof -
  obtain tr st1 w1 where r:
    "check_symbol plain_cfg ''BTC-USD'' entry_feed default_state no_files = (tr, st1, w1)"
    by (cases "check_symbol plain_cfg ''BTC-USD'' entry_feed default_state no_files") auto
  then have e: "events w1 = [Saved, Posted ''BUY BTC-USD'']"
    using entry_round by simp
  have o: "assets st1 k = assets default_state k" if "k \<noteq> ''BTC-USD''" for k
    using check_symbol_others [OF r that] .
  have a: "ASSETS = ''BTC-USD'' # tl ASSETS"
    by (simp add: ASSETS_def)
  have d: "''BTC-USD'' \<notin> set (tl ASSETS)"
    using distinct_ASSETS by (subst (asm) a) simp
  have rest: "process_assets plain_cfg entry_feeds (tl ASSETS) st1 w1 = (st1, w1)"
  proof (rule process_assets_unchanged, rule ballI)
    fix symbol
    assume i: "symbol \<in> set (tl ASSETS)"
    then have n: "symbol \<noteq> ''BTC-USD''"
      using d by auto
    have m: "symbol \<in> set ASSETS"
      using i by (subst a) simp
    have "assets st1 symbol = Some default_position"
      using o [OF n] m by (simp add: default_state_def default_for_def)
    then have "check_symbol plain_cfg symbol (quiet_feed 50) st1 w1 = (NoChange, st1, w1)"
      by (rule quiet_round_at)
    then show "\<exists>tr. check_symbol plain_cfg symbol (entry_feeds symbol) st1 w1 = (tr, st1, w1)"
      using n by (simp add: entry_feeds_def)
  qed
  have f: "entry_feeds ''BTC-USD'' = entry_feed"
    by (simp add: entry_feeds_def)
  have "process_assets plain_cfg entry_feeds (''BTC-USD'' # tl ASSETS) default_state no_files
      = (st1, w1)"
    by (simp only: process_assets.simps f r prod.case rest)
  then have "process_assets plain_cfg entry_feeds ASSETS default_state no_files = (st1, w1)"
    using a by simp
  moreover have "load_state no_files = default_state"
    by (simp add: load_state_def no_files_def)
  ultimately show ?thesis
    using e by (simp add: check_signals_def save_state_files)
qed

section \<open>The claims\<close>

subsection \<open>The position state machine\<close>

text \<open>
  C1. An open position (\<open>in_position\<close> true, entry price \<open>entry\<close>, take-profit
  percentage \<open>tp\<close>) takes exactly one branch per round, tested in this order: the
  take-profit exit iff \<open>price \<ge> entry * (1 + tp / 100)\<close>; otherwise the stop-loss exit
  iff \<open>price \<le> entry * (1 - STOP_LOSS / 100)\<close>; otherwise the upgrade iff the daily EMAs
  cross upward and \<open>tp\<close> is not yet the upgraded value; otherwise nothing changes.
  Both thresholds are the floats the source computes, each operation rounded to
  binary64. With entry 100 and tp 40 they are exactly 140 and 90: a price of 140 or
  more takes profit, a price of 90 or less stops the loss, and a price between them
  (139.99) without a daily crossover leaves snapshot and world as they were. The
  entry price is a positive float in the data model; the theorem needs only that it
  is not zero, since the stop-loss table divides by it.
\<close>

theorem open_position_order:
  assumes fd: "h4 fd = Some q" "d1 fd = Some d"
    and p: "assets st symbol = Some p"
    and opn: "in_position p = Some True" "entry_price p = Some (Some entry)"
      "take_profit p = Some tp"
    and nz: "entry \<noteq> 0"
  shows "(let R = check_symbol cfg symbol fd st w;
              p' = get_symbol (fst (snd R)) symbol;
              tp_hit = (price q \<ge> float_mul entry (float_add 1 (float_div tp 100)));
              sl_hit = (price q \<le> float_mul entry (float_sub 1 (float_div STOP_LOSS 100)));
              trend_cross = (prev_ema100 d < prev_ema200 d \<and> daily_ema100 d > daily_ema200 d)
          in (fst R = TakeProfitExit \<longleftrightarrow> tp_hit)
           \<and> (fst R = StopLossExit \<longleftrightarrow> \<not> tp_hit \<and> sl_hit)
           \<and> (fst R = Upgrade \<longleftrightarrow> \<not> tp_hit \<and> \<not> sl_hit \<and> trend_cross \<and> tp \<noteq> UPGRADED_TP)
           \<and> (fst R = NoChange \<longleftrightarrow> \<not> tp_hit \<and> \<not> sl_hit \<and> \<not> (trend_cross \<and> tp \<noteq> UPGRADED_TP))
           \<and> (fst R = TakeProfitExit \<or> fst R = StopLossExit \<longrightarrow>
                in_position p' = Some False \<and> entry_price p' = Some None
                \<and> take_profit p' = Some TAKE_PROFIT)
           \<and> (fst R = Upgrade \<longrightarrow>
                in_position p' = Some True \<and> entry_price p' = Some (Some entry)
                \<and> take_profit p' = Some UPGRADED_TP)
           \<and> (fst R = NoChange \<longrightarrow> snd R = (st, w))
           \<and> (entry = 100 \<and> tp = 40 \<longrightarrow>
                (price q \<ge> 140 \<longrightarrow> fst R = TakeProfitExit)
              \<and> (price q \<le> 90 \<longrightarrow> fst R = StopLossExit)
              \<and> (90 < price q \<and> price q < 140 \<and> \<not> trend_cross \<longrightarrow>
                    R = (NoChange, st, w))))"
proof -
  define TP where "TP = float_mul entry (float_add 1 (float_div tp 100))"
  define SL where "SL = float_mul entry (float_sub 1 (float_div STOP_LOSS 100))"
  have levels: "entry = 100 \<and> tp = 40 \<longrightarrow> TP = 140 \<and> SL = 90"
    by (simp add: TP_def SL_def take_profit_level_100_40 stop_loss_level_100)
  have tp: "tp = (case take_profit p of None \<Rightarrow> TAKE_PROFIT | Some t \<Rightarrow> t)"
    using opn(3) by simp
  note eq = check_symbol_open [OF fd p opn(1) opn(2) tp, of cfg w, folded TP_def SL_def]
  consider (tp) "price q \<ge> TP"
    | (sl) "\<not> price q \<ge> TP" "price q \<le> SL"
    | (up) "\<not> price q \<ge> TP" "\<not> price q \<le> SL"
        "prev_ema100 d < prev_ema200 d \<and> daily_ema100 d > daily_ema200 d \<and> tp \<noteq> UPGRADED_TP"
    | (quiet) "\<not> price q \<ge> TP" "\<not> price q \<le> SL"
        "\<not> (prev_ema100 d < prev_ema200 d \<and> daily_ema100 d > daily_ema200 d \<and> tp \<noteq> UPGRADED_TP)"
    by blast
  then show ?thesis
  proof cases
    case tp
    obtain st1 w1 lm where "check_symbol cfg symbol fd st w = (TakeProfitExit, st1, w1)"
      and "assets st1 symbol = Some (close_fields (p\<lparr>last_msg := lm\<rparr>))"
      using send_then_set [OF p, where cfg = cfg and w = w and T = TakeProfitExit
          and f = close_fields and g = "gate_ts fd" and m = "mark_ts fd"
          and t = "render cfg (TakeProfitText symbol tp (price q) entry)"] eq tp
      by auto
    then show ?thesis
      unfolding Let_def TP_def [symmetric] SL_def [symmetric]
      using tp levels by (auto simp add: get_symbol_def close_fields_def)
  next
    case sl
    obtain st1 w1 lm where "check_symbol cfg symbol fd st w = (StopLossExit, st1, w1)"
      and "assets st1 symbol = Some (close_fields (p\<lparr>last_msg := lm\<rparr>))"
      using send_then_set [OF p, where cfg = cfg and w = w and T = StopLossExit
          and f = close_fields and g = "gate_ts fd" and m = "mark_ts fd"
          and t = "render cfg (StopLossText symbol (price q) entry (daily_ema100 d) (daily_ema200 d))"]
        eq sl nz
      by auto
    then show ?thesis
      unfolding Let_def TP_def [symmetric] SL_def [symmetric]
      using sl levels by (auto simp add: get_symbol_def close_fields_def)
  next
    case up
    obtain st2 w2 lm where "check_symbol cfg symbol fd st w = (Upgrade, st2, w2)"
      and "assets st2 symbol = Some ((upgrade_fields p)\<lparr>last_msg := lm\<rparr>)"
      using set_then_send [OF p, where cfg = cfg and w = w and T = Upgrade
          and f = upgrade_fields and g = "gate_ts fd" and m = "mark_ts fd"
          and t = "render cfg (UpgradeText symbol)"] eq up opn(3)
      by auto
    then show ?thesis
      unfolding Let_def TP_def [symmetric] SL_def [symmetric]
      using up opn levels by (auto simp add: get_symbol_def upgrade_fields_def)
  next
    case quiet
    then have "check_symbol cfg symbol fd st w = (NoChange, st, w)"
      using eq opn(3) by auto
    then show ?thesis
      unfolding Let_def TP_def [symmetric] SL_def [symmetric]
      using quiet levels by auto
  qed
qed

theorem open_position_order_witness:
  "fst (check_symbol plain_cfg ''BTC-USD'' (quiet_feed 140) (holding 100 40) no_files) = TakeProfitExit
   \<and> fst (check_symbol plain_cfg ''BTC-USD'' (quiet_feed 90) (holding 100 40) no_files) = StopLossExit
   \<and> check_symbol plain_cfg ''BTC-USD'' (quiet_feed (615682531089449 / 4398046511104))
         (holding 100 40) no_files
       = (NoChange, holding 100 40, no_files)
   \<and> fst (check_symbol plain_cfg ''BTC-USD'' (quiet_feed (1182194902184755 / 281474976710656))
         (holding 3 40) no_files) = TakeProfitExit"
proof -
  have a: "h4 (quiet_feed x) = Some (flat_bars x)" "d1 (quiet_feed x) = Some flat_days" for x
    by (simp_all add: quiet_feed_def)
  have b: "in_position (open_at e 40) = Some True"
    "entry_price (open_at e 40) = Some (Some e)"
    "take_profit (open_at e 40) = Some 40" for e
    by (simp_all add: open_at_def)
  have c: "(100::real) \<noteq> 0" "(3::real) \<noteq> 0"
    by simp_all
  note t = open_position_order [OF a holding_btc b c(1), where cfg = plain_cfg and w = no_files]
  note u = open_position_order [OF a holding_btc b c(2), where cfg = plain_cfg and w = no_files]
  show ?thesis
    using t [of 140] t [of 90] t [of "615682531089449 / 4398046511104"]
      u [of "1182194902184755 / 281474976710656"]
    by (simp add: Let_def flat_bars_def flat_days_def take_profit_level_3_40)
qed

text \<open>
  C2. A flat position (\<open>in_position\<close> false) is entered iff the 4h EMAs cross upward
  strictly: the short EMA below the long one on the previous bar and above it on the
  current bar. Equality on either bar is no trigger. The entry sets \<open>in_position\<close> to
  true, \<open>entry_price\<close> to the close of the current bar and \<open>take_profit\<close> to
  \<open>TAKE_PROFIT\<close>; without the crossover snapshot and world stay as they were.
\<close>

theorem flat_entry:
  assumes fd: "h4 fd = Some q" "d1 fd = Some d"
    and p: "assets st symbol = Some p"
    and flat: "in_position p = Some False"
  shows "(let R = check_symbol cfg symbol fd st w;
              p' = get_symbol (fst (snd R)) symbol;
              cross = (prev_short q < prev_long q \<and> last_short q > last_long q)
          in (fst R = Entry \<longleftrightarrow> cross)
           \<and> (fst R = NoChange \<longleftrightarrow> \<not> cross)
           \<and> (fst R = Entry \<longrightarrow>
                in_position p' = Some True \<and> entry_price p' = Some (Some (price q))
                \<and> take_profit p' = Some TAKE_PROFIT)
           \<and> (fst R = NoChange \<longrightarrow> snd R = (st, w))
           \<and> (prev_short q = prev_long q \<or> last_short q = last_long q \<longrightarrow>
                R = (NoChange, st, w)))"
proof (cases "prev_short q < prev_long q \<and> last_short q > last_long q")
  case True
  obtain st2 w2 lm where "check_symbol cfg symbol fd st w = (Entry, st2, w2)"
    and "assets st2 symbol = Some ((open_fields (price q) p)\<lparr>last_msg := lm\<rparr>)"
    using set_then_send [OF p, where cfg = cfg and w = w and T = Entry
        and f = "open_fields (price q)" and g = "gate_ts fd" and m = "mark_ts fd"
        and t = "render cfg (SignalText symbol (price q) (daily_ema100 d) (daily_ema200 d)
                   (price q) TAKE_PROFIT)"]
      check_symbol_flat [OF fd p flat, of cfg w] True
    by auto
  then show ?thesis
    using True by (auto simp add: Let_def get_symbol_def open_fields_def)
next
  case False
  then have "check_symbol cfg symbol fd st w = (NoChange, st, w)"
    using check_symbol_flat [OF fd p flat, of cfg w] by auto
  then show ?thesis
    using False by (auto simp add: Let_def)
qed

theorem flat_entry_witness:
  "fst (check_symbol plain_cfg ''BTC-USD'' entry_feed default_state no_files) = Entry
   \<and> in_position (get_symbol (fst (snd (check_symbol plain_cfg ''BTC-USD'' entry_feed
         default_state no_files))) ''BTC-USD'') = Some True
   \<and> entry_price (get_symbol (fst (snd (check_symbol plain_cfg ''BTC-USD'' entry_feed
         default_state no_files))) ''BTC-USD'') = Some (Some 100)
   \<and> take_profit (get_symbol (fst (snd (check_symbol plain_cfg ''BTC-USD'' entry_feed
         default_state no_files))) ''BTC-USD'') = Some TAKE_PROFIT
   \<and> check_symbol plain_cfg ''BTC-USD'' (quiet_feed 100) default_state no_files
       = (NoChange, default_state, no_files)"
proof -
  have a: "h4 entry_feed = Some (crossing_bars 100)" "d1 entry_feed = Some flat_days"
    by (simp_all add: entry_feed_def)
  have b: "h4 (quiet_feed 100) = Some (flat_bars 100)" "d1 (quiet_feed 100) = Some flat_days"
    by (simp_all add: quiet_feed_def)
  have p: "assets default_state ''BTC-USD'' = Some default_position"
    by (simp add: default_state_def default_for_def ASSETS_def)
  have f: "in_position default_position = Some False"
    by (simp add: default_position_def)
  show ?thesis
    using flat_entry [OF a p f, of plain_cfg no_files] flat_entry [OF b p f, of plain_cfg no_files]
    by (simp add: Let_def crossing_bars_def flat_bars_def)
qed

text \<open>
  C3. After every transition of a round (entry, take-profit exit, stop-loss exit,
  upgrade), whatever the snapshot was before, the dict of the instrument has a
  non-null \<open>entry_price\<close> exactly when \<open>in_position\<close> is true, and after either exit
  \<open>take_profit\<close> is back at \<open>TAKE_PROFIT\<close>. A round without a transition leaves the
  snapshot as it was, and no round touches the dict of another instrument.
\<close>

theorem transition_invariant:
  "(let R = check_symbol cfg symbol fd st w; tr = fst R; st' = fst (snd R);
        p' = get_symbol st' symbol
    in (tr = Entry \<or> tr = TakeProfitExit \<or> tr = StopLossExit \<or> tr = Upgrade \<longrightarrow>
          assets st' symbol \<noteq> None
          \<and> (in_position p' = Some True \<longleftrightarrow> (\<exists>x. entry_price p' = Some (Some x)))
          \<and> (in_position p' = Some False \<longleftrightarrow> entry_price p' = Some None))
     \<and> (tr = TakeProfitExit \<or> tr = StopLossExit \<longrightarrow>
          in_position p' = Some False \<and> entry_price p' = Some None
          \<and> take_profit p' = Some TAKE_PROFIT)
     \<and> (tr = Entry \<longrightarrow> in_position p' = Some True \<and> take_profit p' = Some TAKE_PROFIT)
     \<and> (tr = Upgrade \<longrightarrow> in_position p' = Some True)
     \<and> (tr = Skipped \<or> tr = NoChange \<or> (\<exists>e. tr = Failed e) \<longrightarrow> st' = st)
     \<and> (\<forall>other. other \<noteq> symbol \<longrightarrow> assets st' other = assets st other))"
proof -
  obtain tr st' w' where r: "check_symbol cfg symbol fd st w = (tr, st', w')"
    by (cases "check_symbol cfg symbol fd st w") auto
  from check_symbol_result [OF r] show ?thesis
    unfolding r Let_def
    by (auto simp add: get_symbol_def open_fields_def close_fields_def upgrade_fields_def)
qed

theorem transition_invariant_witness:
  "in_position (get_symbol (fst (snd (check_symbol plain_cfg ''BTC-USD'' (quiet_feed 140)
       (holding 100 40) no_files))) ''BTC-USD'') = Some False
   \<and> entry_price (get_symbol (fst (snd (check_symbol plain_cfg ''BTC-USD'' (quiet_feed 140)
       (holding 100 40) no_files))) ''BTC-USD'') = Some None
   \<and> take_profit (get_symbol (fst (snd (check_symbol plain_cfg ''BTC-USD'' (quiet_feed 140)
       (holding 100 40) no_files))) ''BTC-USD'') = Some TAKE_PROFIT
   \<and> assets (fst (snd (check_symbol plain_cfg ''BTC-USD'' (quiet_feed 140)
       (holding 100 40) no_files))) ''ETH-USD'' = assets (holding 100 40) ''ETH-USD''"
  using transition_invariant [of plain_cfg "''BTC-USD''" "quiet_feed 140" "holding 100 40" no_files]
    sample_take_profit
  by (simp add: Let_def)

subsection \<open>The notification gate\<close>

text \<open>
  C4. \<open>should_send\<close> returns false iff the text equals the last message recorded for
  the instrument and \<open>now - ts < 60\<close>, or equals the last message recorded globally and
  \<open>now - ts < 10\<close>. After \<open>mark_sent\<close> for instrument \<open>a\<close> at time \<open>t\<close>: the same text
  for \<open>a\<close> is denied at \<open>t + 30\<close> and allowed at \<open>t + 61\<close>; for another instrument
  \<open>b\<close> it is denied at \<open>t + 5\<close>, and at \<open>t + 11\<close> it is allowed unless \<open>b\<close> itself
  recorded that text less than 60 seconds before.
\<close>

theorem should_send_rule:
  "(should_send st symbol txt now_ts = False \<longleftrightarrow>
      (\<exists>m. get_or_none (last_msg (get_symbol st symbol)) = Some m
           \<and> msg_text m = txt \<and> now_ts - msg_ts m < 60)
    \<or> (\<exists>m. get_or_none (global_last_msg st) = Some m
           \<and> msg_text m = txt \<and> now_ts - msg_ts m < 10))
   \<and> should_send (fst (mark_sent st a txt t w)) a txt (t + 30) = False
   \<and> should_send (fst (mark_sent st a txt t w)) a txt (t + 61) = True
   \<and> (b \<noteq> a \<longrightarrow> should_send (fst (mark_sent st a txt t w)) b txt (t + 5) = False)
   \<and> (b \<noteq> a \<longrightarrow>
        should_send (fst (mark_sent st a txt t w)) b txt (t + 11)
          = (\<not> (\<exists>m. get_or_none (last_msg (get_symbol st b)) = Some m
                   \<and> msg_text m = txt \<and> t + 11 - msg_ts m < 60)))"
proof -
  have rule: "should_send st symbol txt now_ts = False \<longleftrightarrow>
      (\<exists>m. get_or_none (last_msg (get_symbol st symbol)) = Some m
           \<and> msg_text m = txt \<and> now_ts - msg_ts m < 60)
    \<or> (\<exists>m. get_or_none (global_last_msg st) = Some m
           \<and> msg_text m = txt \<and> now_ts - msg_ts m < 10)"
    for st symbol now_ts
    by (auto simp add: should_send_def Let_def MIN_TELEGRAM_INTERVAL_def split: option.splits)
  have own: "get_or_none (last_msg (get_symbol (fst (mark_sent st a txt t w)) a))
      = Some \<lparr>msg_text = txt, msg_ts = t\<rparr>"
    by (simp add: mark_sent_state get_symbol_def get_or_none_def)
  have glob: "get_or_none (global_last_msg (fst (mark_sent st a txt t w)))
      = Some \<lparr>msg_text = txt, msg_ts = t\<rparr>"
    by (simp add: mark_sent_state get_or_none_def)
  have other: "get_symbol (fst (mark_sent st a txt t w)) b = get_symbol st b" if "b \<noteq> a"
    using that by (simp add: mark_sent_state get_symbol_def)
  have e30: "should_send (fst (mark_sent st a txt t w)) a txt (t + 30) = False"
    using rule [of "fst (mark_sent st a txt t w)" a "t + 30"] by (simp add: own)
  have e61: "should_send (fst (mark_sent st a txt t w)) a txt (t + 61) = True"
    using rule [of "fst (mark_sent st a txt t w)" a "t + 61"] by (simp add: own glob)
  have e5: "should_send (fst (mark_sent st a txt t w)) b txt (t + 5) = False"
    using rule [of "fst (mark_sent st a txt t w)" b "t + 5"] by (simp add: glob)
  have e11: "should_send (fst (mark_sent st a txt t w)) b txt (t + 11)
          = (\<not> (\<exists>m. get_or_none (last_msg (get_symbol st b)) = Some m
                   \<and> msg_text m = txt \<and> t + 11 - msg_ts m < 60))" if "b \<noteq> a"
    using rule [of "fst (mark_sent st a txt t w)" b "t + 11"] other [OF that]
    by (auto simp add: glob)
  show ?thesis
    using rule [of st symbol now_ts] e30 e61 e5 e11 by blast
qed

theorem should_send_rule_witness:
  "should_send (fst (mark_sent default_state ''BTC-USD'' ''Y'' 1000 no_files))
      ''ETH-USD'' ''Y'' (1000 + 5) = False
   \<and> should_send (fst (mark_sent default_state ''BTC-USD'' ''Y'' 1000 no_files))
      ''ETH-USD'' ''Y'' (1000 + 11) = True
   \<and> should_send (fst (mark_sent default_state ''BTC-USD'' ''Y'' 1000 no_files))
      ''BTC-USD'' ''Y'' (1000 + 30) = False
   \<and> should_send (fst (mark_sent default_state ''BTC-USD'' ''Y'' 1000 no_files))
      ''BTC-USD'' ''Y'' (1000 + 61) = True"
proof -
  have n: "''ETH-USD'' \<noteq> ''BTC-USD''"
    by simp
  have q: "get_or_none (last_msg (get_symbol default_state ''ETH-USD'')) = None"
    by (simp add: get_or_none_def get_symbol_def default_state_def default_for_def
        default_position_def ASSETS_def)
  show ?thesis
    using should_send_rule [of default_state "''ETH-USD''" "''Y''" 0 "''BTC-USD''" 1000
        no_files "''ETH-USD''"] n q
    by simp
qed

subsection \<open>Loading the state file\<close>

text \<open>
  C5. With a state file that parses, \<open>load_state\<close> returns the persisted snapshot
  merged with the defaults (lemma \<open>load_state_merges\<close>): every configured instrument is
  present with all four fields, persisted values are kept, and the global record is
  present, null if the file had none. With no state file, or one that does not parse,
  it returns the default dict of the instruments as it is, and that dict has no
  \<^verbatim>\<open>"global_last_msg"\<close> key: on these paths the global record is absent, not null.
\<close>

theorem load_state_fallback_lacks_global:
  assumes "state_file w = None \<or> state_file w = Some Torn"
  shows "load_state w = default_state
     \<and> global_last_msg (load_state w) = None
     \<and> list_all (\<lambda>k. assets (load_state w) k = Some default_position) ASSETS"
proof -
  have "load_state w = default_state"
    using assms by (auto simp add: load_state_def)
  then show ?thesis
    by (simp add: default_state_def default_for_def list_all_iff)
qed

theorem load_state_fallback_lacks_global_witness:
  "global_last_msg (load_state no_files) = None
   \<and> global_last_msg (load_state (no_files\<lparr>state_file := Some Torn\<rparr>)) = None
   \<and> global_last_msg (load_state (no_files\<lparr>state_file := Some (Doc default_state)\<rparr>))
       = Some None"
proof -
  have a: "state_file no_files = None \<or> state_file no_files = Some Torn"
    by (simp add: no_files_def)
  have b: "state_file (no_files\<lparr>state_file := Some Torn\<rparr>) = None
      \<or> state_file (no_files\<lparr>state_file := Some Torn\<rparr>) = Some Torn"
    by simp
  have c: "global_last_msg (load_state (no_files\<lparr>state_file := Some (Doc default_state)\<rparr>))
       = Some None"
    by (simp add: load_state_def merge_defaults_global default_state_def default_for_def)
  show ?thesis
    using load_state_fallback_lacks_global [OF a] load_state_fallback_lacks_global [OF b] c
    by (simp add: default_state_def default_for_def)
qed

subsection \<open>The take-profit upgrade\<close>

text \<open>
  C6. The upgrade is one-way. It fires only on an open position, when the daily EMAs
  cross upward strictly and \<open>take_profit\<close> differs from \<open>UPGRADED_TP\<close>, and it sets
  \<open>take_profit\<close> to \<open>UPGRADED_TP\<close> without touching the entry. A round that finds the
  position open at the upgraded value and leaves it open leaves the value upgraded,
  whatever the trend does. Hence, through any number of cycles of the main loop after
  each of which the state file still shows the position open, the state file shows
  the upgraded value.
\<close>

theorem upgrade_one_way:
  "(let R = check_symbol cfg symbol fd st w;
        p = get_symbol st symbol; p' = get_symbol (fst (snd R)) symbol
    in (fst R = Upgrade \<longrightarrow>
          (\<exists>d. d1 fd = Some d \<and> prev_ema100 d < prev_ema200 d \<and> daily_ema100 d > daily_ema200 d)
          \<and> in_position p = Some True
          \<and> take_profit p \<noteq> Some UPGRADED_TP
          \<and> take_profit p' = Some UPGRADED_TP
          \<and> in_position p' = Some True \<and> entry_price p' = entry_price p)
     \<and> (in_position p = Some True \<and> take_profit p = Some UPGRADED_TP
          \<and> in_position p' = Some True \<longrightarrow> take_profit p' = Some UPGRADED_TP))
   \<and> (in_position (persisted w0 symbol) = Some True
        \<and> take_profit (persisted w0 symbol) = Some UPGRADED_TP
        \<and> (\<forall>w' \<in> set (run_cycles cfg fs w0). in_position (persisted w' symbol) = Some True)
      \<longrightarrow> (\<forall>w' \<in> set (run_cycles cfg fs w0).
             take_profit (persisted w' symbol) = Some UPGRADED_TP))"
proof -
  obtain tr st' w' where r: "check_symbol cfg symbol fd st w = (tr, st', w')"
    by (cases "check_symbol cfg symbol fd st w") auto
  have up: "(\<exists>d. d1 fd = Some d \<and> prev_ema100 d < prev_ema200 d \<and> daily_ema100 d > daily_ema200 d)
          \<and> in_position (get_symbol st symbol) = Some True
          \<and> take_profit (get_symbol st symbol) \<noteq> Some UPGRADED_TP
          \<and> take_profit (get_symbol st' symbol) = Some UPGRADED_TP
          \<and> in_position (get_symbol st' symbol) = Some True
          \<and> entry_price (get_symbol st' symbol) = entry_price (get_symbol st symbol)"
    if "tr = Upgrade"
    using check_symbol_result [OF r] that
    by (auto simp add: get_symbol_def upgrade_fields_def)
  show ?thesis
    using up upgraded_round [OF r] upgraded_run [of w0 symbol cfg fs]
    unfolding r Let_def by simp
qed

theorem upgrade_one_way_witness:
  "take_profit (get_symbol (fst (snd (check_symbol plain_cfg ''BTC-USD'' reversal_feed
       (holding 100 100) no_files))) ''BTC-USD'') = Some UPGRADED_TP
   \<and> take_profit (persisted (last (run_cycles plain_cfg [reversal_feeds, reversal_feeds]
       held_on_disk)) ''BTC-USD'') = Some UPGRADED_TP"
proof -
  have d: "state_file held_on_disk = Some (Doc (holding 100 100))"
    by (simp add: held_on_disk_def)
  then have d1: "state_file (save_state (holding 100 100) held_on_disk)
      = Some (Doc (holding 100 100))"
    by (simp add: save_state_files)
  have r: "run_cycles plain_cfg [reversal_feeds, reversal_feeds] held_on_disk
      = [save_state (holding 100 100) held_on_disk,
         save_state (holding 100 100) (save_state (holding 100 100) held_on_disk)]"
    by (simp add: calm_cycle [OF d] calm_cycle [OF d1])
  have s: "persisted w ''BTC-USD'' = open_at 100 100"
    if "state_file w = Some (Doc (holding 100 100))" for w
    using that by (simp add: persisted_def get_symbol_def holding_def)
  have c: "check_symbol plain_cfg ''BTC-USD'' reversal_feed (holding 100 100) no_files
     = (NoChange, holding 100 100, no_files)"
    using calm_round [of "''BTC-USD''" no_files]
    by (simp add: reversal_feeds_def ASSETS_def)
  have o: "in_position (open_at 100 100) = Some True"
    "take_profit (open_at 100 100) = Some UPGRADED_TP"
    by (simp_all add: open_at_def UPGRADED_TP_def)
  have g: "get_symbol (holding 100 100) ''BTC-USD'' = open_at 100 100"
    by (simp add: get_symbol_def holding_def)
  show ?thesis
    using upgrade_one_way [of plain_cfg "''BTC-USD''" reversal_feed "holding 100 100" no_files
        held_on_disk "[reversal_feeds, reversal_feeds]"] o
    unfolding r c Let_def
    by (simp add: s d save_state_files g)
qed

subsection \<open>Saving within a cycle\<close>

text \<open>
  C7, as the code has it. A cycle calls \<open>save_state\<close> once at its end. Before that it
  calls it only from \<open>mark_sent\<close>, once for each notification that passes the gate,
  immediately before the notification is posted. Each instrument's round appends
  either nothing or exactly one such save and post, and only a round that takes a
  transition can append them: a round that sends nothing saves nothing, so there is
  no save after each instrument, and without Telegram credentials the save at the end
  is the only one.
\<close>

theorem saves_per_cycle:
  "(\<exists>outs. list_all2 (\<lambda>tr out. out = None \<or> is_transition tr)
             (round_labels cfg feeds ASSETS (load_state w) w) outs
       \<and> length outs = length ASSETS
       \<and> events (snd (check_signals cfg feeds w)) = events w @ slot_events outs @ [Saved]
       \<and> saves (snd (check_signals cfg feeds w)) = saves w + notified outs + 1
       \<and> (\<not> telegram_ok cfg \<longrightarrow> notified outs = 0))
   \<and> (let R = check_symbol cfg symbol fd st w0
       in events (snd (snd R)) = events w0
        \<or> is_transition (fst R) \<and> telegram_ok cfg
          \<and> (\<exists>t. events (snd (snd R)) = events w0 @ [Saved, Posted t]))"
proof -
  obtain st' w' where p: "process_assets cfg feeds ASSETS (load_state w) w = (st', w')"
    by (cases "process_assets cfg feeds ASSETS (load_state w) w") auto
  from process_assets_slots [OF p] obtain outs where s:
    "list_all2 (\<lambda>tr out. out = None \<or> is_transition tr)
       (round_labels cfg feeds ASSETS (load_state w) w) outs"
    "length outs = length ASSETS"
    "events w' = events w @ slot_events outs"
    "\<not> telegram_ok cfg \<longrightarrow> notified outs = 0"
    by blast
  have e: "events (snd (check_signals cfg feeds w)) = events w @ slot_events outs @ [Saved]"
    using p s by (simp add: check_signals_def save_state_files)
  then have n: "saves (snd (check_signals cfg feeds w)) = saves w + notified outs + 1"
    by (simp add: saves_def saves_slot_events)
  obtain tr st1 w1 where r: "check_symbol cfg symbol fd st w0 = (tr, st1, w1)"
    by (cases "check_symbol cfg symbol fd st w0") auto
  have "events w1 = events w0
        \<or> is_transition tr \<and> telegram_ok cfg \<and> (\<exists>t. events w1 = events w0 @ [Saved, Posted t])"
    using check_symbol_round_events [OF r] .
  then show ?thesis
    unfolding r Let_def using s e n by (simp, blast)
qed

theorem saves_per_cycle_witness:
  "events (snd (check_signals plain_cfg entry_feeds no_files))
     = [Saved, Posted ''BUY BTC-USD'', Saved]
   \<and> saves (snd (check_signals plain_cfg entry_feeds no_files)) = 2
   \<and> events (snd (snd (check_symbol plain_cfg ''BTC-USD'' entry_feed default_state no_files)))
       = [Saved, Posted ''BUY BTC-USD'']
   \<and> is_transition (fst (check_symbol plain_cfg ''BTC-USD'' entry_feed default_state no_files))"
proof -
  have n: "events no_files = []" "saves no_files = 0"
    by (simp_all add: no_files_def saves_def)
  note t = saves_per_cycle [of plain_cfg entry_feeds no_files "''BTC-USD''" entry_feed
      default_state no_files]
  from t obtain outs where o:
    "events (snd (check_signals plain_cfg entry_feeds no_files))
       = events no_files @ slot_events outs @ [Saved]"
    "saves (snd (check_signals plain_cfg entry_feeds no_files))
       = saves no_files + notified outs + 1"
    by blast
  have "slot_events outs = [Saved, Posted ''BUY BTC-USD'']"
    using o(1) entry_cycle n(1) by simp
  then have "notified outs = 1"
    using saves_slot_events [of outs] by simp
  then have "saves (snd (check_signals plain_cfg entry_feeds no_files)) = 2"
    using o(2) n(2) by simp
  moreover have "is_transition (fst (check_symbol plain_cfg ''BTC-USD'' entry_feed
      default_state no_files))"
    using entry_round by (simp add: is_transition_def)
  ultimately show ?thesis
    using entry_cycle entry_round by simp
qed

text \<open>
  C7, as the claim states it, fails: a cycle over the 29 instruments in which every
  download succeeds and no signal fires calls \<open>save_state\<close> once, not 30 times.
\<close>

theorem saves_per_cycle_counterexample:
  "events (snd (check_signals plain_cfg quiet_feeds no_files)) = [Saved]
   \<and> saves (snd (check_signals plain_cfg quiet_feeds no_files)) \<noteq> length ASSETS + 1"
proof -
  have "load_state no_files = default_state"
    by (simp add: load_state_def no_files_def)
  moreover have "process_assets plain_cfg quiet_feeds ASSETS default_state no_files
      = (default_state, no_files)"
    by (rule process_assets_unchanged) (simp add: quiet_round)
  ultimately have "events (snd (check_signals plain_cfg quiet_feeds no_files)) = [Saved]"
    by (simp add: check_signals_def save_state_files no_files_def)
  then show ?thesis
    by (simp add: saves_def ASSETS_def)
qed

subsection \<open>Saving and loading\<close>

text \<open>
  C8. \<open>save_state\<close> writes the temporary file and only then renames it over the state
  file. Stopped after any number of its effects, by an exception or by the end of the
  process, it leaves the state file either as it was or holding the whole new
  document; stopped between the write and the rename, the state file is as it was and
  the temporary file holds the new document. A state file that parsed before never
  becomes one that does not. The rename itself is one atomic effect, as
  \<^verbatim>\<open>os.replace\<close> promises.
\<close>

theorem save_state_atomic:
  "(let w' = save_state_upto k st w
    in (state_file w' = state_file w \<or> state_file w' = Some (Doc st))
     \<and> (state_file w' = Some (Doc st) \<or> k < 3)
     \<and> (k < 3 \<longrightarrow> state_file w' = state_file w)
     \<and> (k = 2 \<longrightarrow> tmp_file w' = Some (Doc st) \<and> state_file w' = state_file w)
     \<and> (state_file w \<noteq> Some Torn \<longrightarrow> state_file w' \<noteq> Some Torn))"
  by (auto simp add: save_state_upto_def open_tmp_def dump_tmp_def replace_tmp_def Let_def)

theorem save_state_atomic_witness:
  "state_file (save_state_upto 2 default_state (no_files\<lparr>state_file := Some (Doc (holding 100 40))\<rparr>))
     = Some (Doc (holding 100 40))
   \<and> tmp_file (save_state_upto 2 default_state (no_files\<lparr>state_file := Some (Doc (holding 100 40))\<rparr>))
     = Some (Doc default_state)
   \<and> state_file (save_state_upto 1 default_state (no_files\<lparr>state_file := Some (Doc (holding 100 40))\<rparr>))
     \<noteq> Some Torn"
  using save_state_atomic [of 2 default_state "no_files\<lparr>state_file := Some (Doc (holding 100 40))\<rparr>"]
    save_state_atomic [of 1 default_state "no_files\<lparr>state_file := Some (Doc (holding 100 40))\<rparr>"]
  by (simp add: Let_def)

text \<open>
  C9. For a snapshot that has every configured instrument with all four fields and
  has the global record, \<open>load_state\<close> after \<open>save_state\<close> returns the snapshot saved.
\<close>

theorem save_load_roundtrip:
  assumes "well_formed st"
  shows "load_state (save_state st w) = st"
  using assms
  by (simp add: load_state_def save_state_files well_formed_def merge_defaults_id)

theorem save_load_roundtrip_witness:
  "load_state (save_state (holding 100 40) no_files) = holding 100 40"
proof -
  have "well_formed (holding 100 40)"
    by (simp add: well_formed_def holding_def open_at_def complete_def default_state_def
        default_for_def default_position_def)
  then show ?thesis
    by (rule save_load_roundtrip)
qed

subsection \<open>Recording a sent notification\<close>

text \<open>
  C10. \<open>mark_sent\<close> writes one record, made of the text and a single clock reading,
  to two places of the snapshot: \<open>last_msg\<close> of the given instrument (whose dict is
  created empty if absent) and the global record. The other three fields of that
  instrument and the dict of every other instrument are as before. The snapshot is
  then saved.
\<close>

theorem mark_sent_frame:
  "(let st' = fst (mark_sent st symbol txt now_ts w);
        m = \<lparr>msg_text = txt, msg_ts = now_ts\<rparr>
    in last_msg (get_symbol st' symbol) = Some (Some m)
     \<and> global_last_msg st' = Some (Some m)
     \<and> assets st' symbol \<noteq> None
     \<and> in_position (get_symbol st' symbol) = in_position (get_symbol st symbol)
     \<and> entry_price (get_symbol st' symbol) = entry_price (get_symbol st symbol)
     \<and> take_profit (get_symbol st' symbol) = take_profit (get_symbol st symbol)
     \<and> (\<forall>other. other \<noteq> symbol \<longrightarrow> assets st' other = assets st other)
     \<and> snd (mark_sent st symbol txt now_ts w) = save_state st' w)"
  by (simp add: mark_sent_state Let_def get_symbol_def empty_position_def)
    (simp add: mark_sent_def Let_def get_symbol_def split: option.splits)

theorem mark_sent_frame_witness:
  "last_msg (get_symbol (fst (mark_sent (holding 100 40) ''ETH-USD'' ''X'' 1000 no_files))
      ''ETH-USD'') = Some (Some \<lparr>msg_text = ''X'', msg_ts = 1000\<rparr>)
   \<and> global_last_msg (fst (mark_sent (holding 100 40) ''ETH-USD'' ''X'' 1000 no_files))
      = Some (Some \<lparr>msg_text = ''X'', msg_ts = 1000\<rparr>)
   \<and> assets (fst (mark_sent (holding 100 40) ''ETH-USD'' ''X'' 1000 no_files)) ''BTC-USD''
      = Some (open_at 100 40)"
proof -
  have n: "''BTC-USD'' \<noteq> ''ETH-USD''"
    by simp
  show ?thesis
    using mark_sent_frame [of "holding 100 40" "''ETH-USD''" "''X''" 1000 no_files] n
    by (simp add: Let_def holding_btc)
qed

end
